theory Spec2Isabelle
  imports Main "HOL-Library.Sublist" "HOL-Library.Word"
begin

unbundle bit_operations_syntax

section \<open>Errors and the error-catching wrapper (api/src/errors.ts)\<close>

text \<open>
  The exceptions the code raises, as values. \<open>Error\<close> is the generic JavaScript
  error, built with \<^verbatim>\<open>new Error(message)\<close>; \<open>TypeError\<close> is what the engine raises
  on a property read from \<^verbatim>\<open>null\<close>; \<open>StatusError\<close> is the class of errors.ts, a
  status code and a message.
\<close>

datatype err =
    Error string
  | TypeError string
  | StatusError int string

fun message :: "err \<Rightarrow> string" where
  "message (Error m) = m"
| "message (TypeError m) = m"
| "message (StatusError c m) = m"

text \<open>
  What a function does besides returning: the calls to \<^verbatim>\<open>reportError\<close> (with an
  error object or a message), to the rate collaborator \<^verbatim>\<open>getLatestRates\<close> (with its
  base currency) and to the cipher (with the plaintext it is given), in the order
  the code makes them.
\<close>

datatype effect =
    ReportError "err + string"
  | GetLatestRates string
  | AesEncrypt string

record api_result =
  statusCode :: int
  headers :: "(string \<times> string) list"
  body :: string

text \<open>
  \<^verbatim>\<open>catchErrors(handler)\<close>: the handler's result is returned as it is; an exception
  is first reported, then a \<open>StatusError\<close> becomes a response with its status code
  and its message as the body, and any other error is thrown again.
\<close>

definition catchErrors ::
  "('ev \<Rightarrow> err + api_result) \<Rightarrow> 'ev \<Rightarrow> effect list \<times> (err + api_result)" where
  "catchErrors handler event =
     (case handler event of
        Inr r \<Rightarrow> ([], Inr r)
      | Inl e \<Rightarrow>
          ([ReportError (Inl e)],
           (case e of
              StatusError c m \<Rightarrow>
                Inr \<lparr> statusCode = c,
                      headers = [(''Cache-Control'', ''no-store'')],
                      body = m \<rparr>
            | _ \<Rightarrow> Inl e)))"

section \<open>Configuration and library functions\<close>

text \<open>
  The module constants read from \<^verbatim>\<open>process.env\<close>. The account id, the API key and
  the validation key are \<^verbatim>\<open>string | undefined\<close>; the parameter key and IV carry a
  non-null assertion and are strings.
\<close>

record config =
  PAYPRO_API_BASE_URL :: string
  PAYPRO_ACCOUNT_ID :: "string option"
  PAYPRO_API_KEY :: "string option"
  PAYPRO_PARAM_KEY :: string
  PAYPRO_PARAM_IV :: string
  PAYPRO_IPN_VALIDATION_KEY :: "string option"

text \<open>
  \<^verbatim>\<open>Array.prototype.join('')\<close> on an array of \<^verbatim>\<open>string | undefined\<close>: an undefined
  element contributes the empty string.
\<close>

definition join_empty :: "string option list \<Rightarrow> string" where
  "join_empty parts = concat (map (\<lambda>p. case p of None \<Rightarrow> [] | Some s \<Rightarrow> s) parts)"

section \<open>Webhook notifications\<close>

datatype PayProIPNTypes =
    OrderCharged
  | OrderChargedBack
  | OrderOnWaiting
  | SubscriptionRenewed
  | SubscriptionTerminated
  | SubscriptionFinished
  | SubscriptionChargeSucceed
  | SubscriptionChargeFailed
  | SubscriptionSuspended

fun ipn_type_string :: "PayProIPNTypes \<Rightarrow> string" where
  "ipn_type_string OrderCharged = ''OrderCharged''"
| "ipn_type_string OrderChargedBack = ''OrderChargedBack''"
| "ipn_type_string OrderOnWaiting = ''OrderOnWaiting''"
| "ipn_type_string SubscriptionRenewed = ''SubscriptionRenewed''"
| "ipn_type_string SubscriptionTerminated = ''SubscriptionTerminated''"
| "ipn_type_string SubscriptionFinished = ''SubscriptionFinished''"
| "ipn_type_string SubscriptionChargeSucceed = ''SubscriptionChargeSucceed''"
| "ipn_type_string SubscriptionChargeFailed = ''SubscriptionChargeFailed''"
| "ipn_type_string SubscriptionSuspended = ''SubscriptionSuspended''"

datatype test_mode = TestMode1 | TestMode0

fun test_mode_string :: "test_mode \<Rightarrow> string" where
  "test_mode_string TestMode1 = ''1''"
| "test_mode_string TestMode0 = ''0''"

datatype SKU = ProMonthly | ProAnnual | TeamAnnual | TeamMonthly | ProPerpetual

datatype subscription_status = Active | Suspended | Terminated | Finished

datatype renewal_type = Auto | Manual

record PayProWebhookData =
  IPN_TYPE_NAME :: PayProIPNTypes
  HASH :: string
  SIGNATURE :: string
  TEST_MODE :: test_mode
  CUSTOMER_EMAIL :: string
  PRODUCT_ID :: string
  ORDER_ITEM_SKU :: SKU
  PRODUCT_QUANTITY :: string
  ORDER_ITEM_TOTAL_AMOUNT :: string
  CUSTOMER_ID :: string
  SUBSCRIPTION_ID :: string
  ORDER_PLACED_TIME_UTC :: string
  INVOICE_LINK :: "string option"
  SUBSCRIPTION_STATUS_NAME :: subscription_status
  SUBSCRIPTION_NEXT_CHARGE_DATE :: string
  SUBSCRIPTION_RENEWAL_TYPE :: renewal_type
  ORDER_ID :: string
  ORDER_STATUS :: string
  ORDER_TOTAL_AMOUNT :: string
  ORDER_CURRENCY_CODE :: string
  ORDER_CUSTOM_FIELDS :: string

text \<open>
  The string that is hashed: the array of the source, joined with no separator.
\<close>

definition signature_key :: "config \<Rightarrow> PayProWebhookData \<Rightarrow> string" where
  "signature_key cfg data =
     join_empty
       [Some (ORDER_ID data),
        Some (ORDER_STATUS data),
        Some (ORDER_TOTAL_AMOUNT data),
        Some (CUSTOMER_EMAIL data),
        PAYPRO_IPN_VALIDATION_KEY cfg,
        Some (test_mode_string (TEST_MODE data)),
        Some (ipn_type_string (IPN_TYPE_NAME data))]"

text \<open>
  \<^verbatim>\<open>validatePayProWebhook\<close>. The digest
  \<^verbatim>\<open>crypto.createHash('sha256').update(key).digest('hex')\<close> is Node's; it is the
  parameter \<open>sha256_hex\<close>, so that what is proved holds of any digest function.
\<close>

definition expectedSignature ::
  "(string \<Rightarrow> string) \<Rightarrow> config \<Rightarrow> PayProWebhookData \<Rightarrow> string" where
  "expectedSignature sha256_hex cfg data = sha256_hex (signature_key cfg data)"

definition validatePayProWebhook ::
  "(string \<Rightarrow> string) \<Rightarrow> config \<Rightarrow> PayProWebhookData \<Rightarrow> err + unit" where
  "validatePayProWebhook sha256_hex cfg data =
     (if SIGNATURE data \<noteq> expectedSignature sha256_hex cfg data
      then Inl (StatusError 403
             (''PayPro IPN signature did not match - expected ''
                @ expectedSignature sha256_hex cfg data
                @ '' but received ''
                @ SIGNATURE data))
      else Inr ())"

section \<open>Custom fields\<close>

text \<open>
  Strings are lists of characters; a character stands for a UTF-16 code unit below
  256. The pattern of \<^verbatim>\<open>parsePayProCustomFields\<close> is
  \<^verbatim>\<open>/x-(\w+)=(.*?)(?=$|,x-\w+)/g\<close>, with no flag but \<^verbatim>\<open>g\<close>: \<^verbatim>\<open>\w\<close> is an ASCII letter,
  a digit or an underscore, \<^verbatim>\<open>.\<close> is any character but a line terminator, and \<^verbatim>\<open>$\<close>
  is the end of the input.
\<close>

definition word_char :: "char \<Rightarrow> bool" where
  "word_char c \<longleftrightarrow>
     c \<in> set (''abcdefghijklmnopqrstuvwxyz'' @ ''ABCDEFGHIJKLMNOPQRSTUVWXYZ''
               @ ''0123456789_'')"

definition line_terminator :: "char \<Rightarrow> bool" where
  "line_terminator c \<longleftrightarrow> c = CHR 0x0A \<or> c = CHR 0x0D"

text \<open>
  The lookahead \<^verbatim>\<open>(?=$|,x-\w+)\<close> on the rest of the input: the end, or a comma,
  \<^verbatim>\<open>x-\<close> and one word character (the greedy \<^verbatim>\<open>\w+\<close> needs one and consumes nothing).
\<close>

definition lookahead :: "string \<Rightarrow> bool" where
  "lookahead rest \<longleftrightarrow>
     rest = [] \<or>
     (take 3 rest = '',x-'' \<and>
      (case drop 3 rest of [] \<Rightarrow> False | w # _ \<Rightarrow> word_char w))"

text \<open>
  The lazy group \<^verbatim>\<open>(.*?)\<close> followed by the lookahead: the value grows one character
  at a time until the lookahead holds; it cannot grow over a line terminator. The
  result is the value and the rest of the input after it.
\<close>

fun match_value :: "string \<Rightarrow> (string \<times> string) option" where
  "match_value [] = Some ([], [])"
| "match_value (c # cs) =
     (if lookahead (c # cs) then Some ([], c # cs)
      else if line_terminator c then None
      else (case match_value cs of
              None \<Rightarrow> None
            | Some (v, rest) \<Rightarrow> Some (c # v, rest)))"

text \<open>
  One attempt of the whole pattern at the start of \<open>cs\<close>. The greedy \<^verbatim>\<open>\w+\<close> takes
  every word character; giving one back leaves a word character where \<^verbatim>\<open>=\<close> is
  required, so no shorter key can match. The result is the key, the value and the
  rest of the input after the match.
\<close>

definition match_at :: "string \<Rightarrow> (string \<times> string \<times> string) option" where
  "match_at cs =
     (if take 2 cs = ''x-'' then
        (let fieldName = takeWhile word_char (drop 2 cs);
             after = dropWhile word_char (drop 2 cs)
         in if fieldName = [] then None
            else (case after of
                    [] \<Rightarrow> None
                  | e # t \<Rightarrow>
                      if e = CHR ''='' then
                        (case match_value t of
                           None \<Rightarrow> None
                         | Some (v, rest) \<Rightarrow> Some (fieldName, v, rest))
                      else None))
      else None)"

text \<open>The search for the leftmost position where the pattern matches.\<close>

fun search :: "string \<Rightarrow> (string \<times> string \<times> string) option" where
  "search [] = match_at []"
| "search (c # cs) =
     (case match_at (c # cs) of
        Some m \<Rightarrow> Some m
      | None \<Rightarrow> search cs)"

text \<open>
  \<^verbatim>\<open>customFieldMatch.exec(customFieldsData)\<close> with the pattern's \<^verbatim>\<open>lastIndex\<close>: the
  search starts at \<^verbatim>\<open>lastIndex\<close>; a match gives the two groups and the new
  \<^verbatim>\<open>lastIndex\<close>, the end of the match; \<open>None\<close> is \<^verbatim>\<open>null\<close>.
\<close>

definition regex_exec :: "string \<Rightarrow> nat \<Rightarrow> (string \<times> string \<times> nat) option" where
  "regex_exec s lastIndex =
     (if length s < lastIndex then None
      else (case search (drop lastIndex s) of
              None \<Rightarrow> None
            | Some (k, v, rest) \<Rightarrow> Some (k, v, length s - length rest)))"

text \<open>
  \<^verbatim>\<open>result[fieldName] = fieldValue\<close> on an object created by \<^verbatim>\<open>{}\<close>: the assignment
  adds or replaces an own property, except for the name \<^verbatim>\<open>__proto__\<close>, which is an
  accessor of \<^verbatim>\<open>Object.prototype\<close> whose setter ignores a string.
\<close>

definition set_property ::
  "(string \<rightharpoonup> string) \<Rightarrow> string \<Rightarrow> string \<Rightarrow> (string \<rightharpoonup> string)" where
  "set_property result fieldName fieldValue =
     (if fieldName = ''__proto__'' then result else result(fieldName \<mapsto> fieldValue))"

text \<open>
  The \<^verbatim>\<open>while (true)\<close> loop of \<^verbatim>\<open>parsePayProCustomFields\<close>; \<open>None\<close> is a loop that
  never ends.
\<close>

partial_function (option) parse_loop ::
  "string \<Rightarrow> nat \<Rightarrow> (string \<rightharpoonup> string) \<Rightarrow> (string \<rightharpoonup> string) option" where
  "parse_loop customFieldsData lastIndex result =
     (case regex_exec customFieldsData lastIndex of
        None \<Rightarrow> Some result
      | Some (fieldName, fieldValue, lastIndex') \<Rightarrow>
          parse_loop customFieldsData lastIndex'
            (set_property result fieldName fieldValue))"

definition parsePayProCustomFields :: "string \<rightharpoonup> (string \<rightharpoonup> string)" where
  "parsePayProCustomFields customFieldsData = parse_loop customFieldsData 0 Map.empty"

text \<open>
  The successive results of \<^verbatim>\<open>exec\<close> that the loop sees, from a given \<^verbatim>\<open>lastIndex\<close>
  on: the two groups and the new \<^verbatim>\<open>lastIndex\<close> of each match. Every match ends
  after the index it started from, which bounds their number.
\<close>

function matches :: "string \<Rightarrow> nat \<Rightarrow> (string \<times> string \<times> nat) list" where
  "matches s lastIndex =
     (case regex_exec s lastIndex of
        None \<Rightarrow> []
      | Some (k, v, lastIndex') \<Rightarrow> (k, v, lastIndex') # matches s lastIndex')"
  by pat_completeness auto
termination
proof (relation "measure (\<lambda>(s, i). length s - i)")
  show "wf (measure (\<lambda>(s, i). length s - i))"
    by simp
next
  fix s :: string and lastIndex :: nat and x k y v lastIndex'
  assume e: "regex_exec s lastIndex = Some x" and x: "(k, y) = x" "(v, lastIndex') = y"
  have mv: "length r \<le> length cs" if "match_value cs = Some (w, r)" for cs w r
    using that by (induction cs arbitrary: w r) (auto split: if_splits option.splits)
  have ma: "length r < length cs" if "match_at cs = Some (n, w, r)" for cs n w r
  proof -
    from that obtain t where "dropWhile word_char (drop 2 cs) = CHR ''='' # t"
      and "match_value t = Some (w, r)"
      by (auto simp add: match_at_def Let_def split: if_splits list.splits option.splits)
    with mv [of t w r] have "length r < length (dropWhile word_char (drop 2 cs))"
      by simp
    also have "\<dots> \<le> length (drop 2 cs)"
      by (rule length_dropWhile_le)
    finally show ?thesis
      by simp
  qed
  have se: "length r < length cs" if "search cs = Some (n, w, r)" for cs n w r
    using that
  proof (induction cs)
    case Nil
    then show ?case by (simp add: match_at_def)
  next
    case (Cons c cs)
    then show ?case
      by (cases "match_at (c # cs)") (auto dest: ma)
  qed
  from e x obtain r where "lastIndex \<le> length s"
    and "search (drop lastIndex s) = Some (k, v, r)" and "lastIndex' = length s - length r"
    by (auto simp add: regex_exec_def split: if_splits option.splits)
  with se [of "drop lastIndex s" k v r] have "lastIndex < lastIndex'" "lastIndex' \<le> length s"
    by simp_all
  then show "((s, lastIndex'), (s, lastIndex)) \<in> measure (\<lambda>(s, i). length s - i)"
    by simp
qed

declare matches.simps [simp del]

text \<open>
  What the specification says of a field: at the index \<open>e\<close> of the input ends a
  text \<^verbatim>\<open>x-key=value\<close> with a key of word characters; what follows satisfies
  \<open>stop\<close>; and \<open>stop\<close> holds nowhere earlier in the value (the value is the
  shortest). \<open>stop\<close> is \<open>lookahead\<close> for the pattern of the code, and
  \<open>spec_lookahead\<close> for the specification's words: the end of the input, or a
  comma, \<^verbatim>\<open>x-\<close>, word characters and an equals sign.
\<close>

definition spec_lookahead :: "string \<Rightarrow> bool" where
  "spec_lookahead rest \<longleftrightarrow>
     rest = [] \<or>
     (take 3 rest = '',x-'' \<and>
      takeWhile word_char (drop 3 rest) \<noteq> [] \<and>
      take 1 (dropWhile word_char (drop 3 rest)) = ''='')"

definition field_ends_at ::
  "(string \<Rightarrow> bool) \<Rightarrow> string \<Rightarrow> string \<Rightarrow> string \<Rightarrow> nat \<Rightarrow> bool" where
  "field_ends_at stop s k v e \<longleftrightarrow>
     length k + length v + 3 \<le> e \<and> e \<le> length s
     \<and> drop (e - (length k + length v + 3)) (take e s) = ''x-'' @ k @ ''='' @ v
     \<and> k \<noteq> [] \<and> list_all word_char k
     \<and> stop (drop e s)
     \<and> list_all (\<lambda>n. \<not> stop (drop n v @ drop e s)) [0..<length v]"

definition field_entry :: "(string \<Rightarrow> bool) \<Rightarrow> string \<Rightarrow> string \<Rightarrow> string \<Rightarrow> bool" where
  "field_entry stop s k v \<longleftrightarrow> list_ex (field_ends_at stop s k v) [0..<Suc (length s)]"

section \<open>Numbers\<close>

text \<open>
  The product ids and the HTTP status are integers, and \<^verbatim>\<open>toString\<close> prints them in
  decimal. The price, the quantity and the conversion rates are JavaScript numbers
  of which the code uses two operations only, \<^verbatim>\<open>toString()\<close> and truthiness; their
  type is the parameter \<open>'n\<close> and the two operations are fields of the record
  \<open>runtime\<close> below.
\<close>

fun show_nat :: "nat \<Rightarrow> string" where
  "show_nat n =
     (if n < 10 then [''0123456789'' ! n]
      else show_nat (n div 10) @ [''0123456789'' ! (n mod 10)])"

declare show_nat.simps [simp del]

definition show_int :: "int \<Rightarrow> string" where
  "show_int i = (if i < 0 then ''-'' @ show_nat (nat (- i)) else show_nat (nat i))"

section \<open>URLSearchParams\<close>

text \<open>
  A \<^verbatim>\<open>URLSearchParams\<close> object is its list of name-value pairs. \<^verbatim>\<open>set\<close> replaces the
  value of the first pair of that name and removes the others, or appends a pair.
\<close>

type_synonym params = "(string \<times> string) list"

fun set_first :: "params \<Rightarrow> string \<Rightarrow> string \<Rightarrow> params" where
  "set_first [] name v = []"
| "set_first ((n, w) # ps) name v =
     (if n = name then (name, v) # filter (\<lambda>p. fst p \<noteq> name) ps
      else (n, w) # set_first ps name v)"

definition params_set :: "params \<Rightarrow> string \<Rightarrow> string \<Rightarrow> params" where
  "params_set ps name v =
     (if name \<in> fst ` set ps then set_first ps name v else ps @ [(name, v)])"

text \<open>
  \<^verbatim>\<open>toString\<close> is the application/x-www-form-urlencoded serialiser: the UTF-8
  bytes of names and values, where a space becomes \<^verbatim>\<open>+\<close>, the ASCII letters and
  digits and \<^verbatim>\<open>* - . _\<close> stay, and every other byte becomes \<^verbatim>\<open>%\<close> and two upper-case
  hexadecimal digits; \<^verbatim>\<open>=\<close> between name and value, \<^verbatim>\<open>&\<close> between pairs.
\<close>

definition utf8 :: "char \<Rightarrow> nat list" where
  "utf8 c =
     (if (of_char c :: nat) < 128 then [of_char c]
      else [192 + of_char c div 64, 128 + of_char c mod 64])"

definition percent_byte :: "nat \<Rightarrow> string" where
  "percent_byte b =
     [CHR ''%'', ''0123456789ABCDEF'' ! (b div 16), ''0123456789ABCDEF'' ! (b mod 16)]"

definition urlencode_char :: "char \<Rightarrow> string" where
  "urlencode_char c =
     (if c = CHR '' '' then ''+''
      else if word_char c \<or> c \<in> set ''*-.'' then [c]
      else concat (map percent_byte (utf8 c)))"

definition urlencode :: "string \<Rightarrow> string" where
  "urlencode s = concat (map urlencode_char s)"

fun params_toString :: "params \<Rightarrow> string" where
  "params_toString [] = []"
| "params_toString [(n, v)] = urlencode n @ ''='' @ urlencode v"
| "params_toString ((n, v) # p # ps) =
     urlencode n @ ''='' @ urlencode v @ ''&'' @ params_toString (p # ps)"

text \<open>
  \<^verbatim>\<open>if (x) params.set(name, x)\<close> for an optional string: undefined and the empty
  string are falsy.
\<close>

definition set_if_truthy :: "params \<Rightarrow> string \<Rightarrow> string option \<Rightarrow> params" where
  "set_if_truthy ps name x =
     (case x of
        None \<Rightarrow> ps
      | Some v \<Rightarrow> if v = [] then ps else params_set ps name v)"

section \<open>Base64 (node-forge)\<close>

text \<open>
  \<^verbatim>\<open>forge.util.encode64\<close>: standard base64 with padding, and no line breaks when no
  line length is given.
\<close>

definition b64 :: "nat \<Rightarrow> char" where
  "b64 n = (''ABCDEFGHIJKLMNOPQRSTUVWXYZ'' @ ''abcdefghijklmnopqrstuvwxyz''
              @ ''0123456789+/'') ! n"

fun encode64 :: "string \<Rightarrow> string" where
  "encode64 (a # b # c # rest) =
     [b64 (of_char a div 4),
      b64 ((of_char a mod 4) * 16 + of_char b div 16),
      b64 ((of_char b mod 16) * 4 + of_char c div 64),
      b64 (of_char c mod 64)] @ encode64 rest"
| "encode64 [a, b] =
     [b64 (of_char a div 4),
      b64 ((of_char a mod 4) * 16 + of_char b div 16),
      b64 ((of_char b mod 16) * 4),
      CHR ''='']"
| "encode64 [a] =
     [b64 (of_char a div 4), b64 ((of_char a mod 4) * 16), CHR ''='', CHR ''='']"
| "encode64 [] = []"

section \<open>AES (node-forge)\<close>

text \<open>
  Modelled from the spec: the cipher is node-forge's, which is not part of the
  repository; the specification names it, "AES in CBC mode using the fixed key and
  IV". This is the AES block cipher of FIPS 197 on a state of 16 bytes, column by
  column: the S-box and its inverse as tables, the row shift, the column mix over
  GF(2^8), the round keys of the key expansion for keys of 16, 24 and 32 bytes. A
  string is a byte string here, one byte for each character.
\<close>

type_synonym byte = "8 word"

definition sbox_table :: "byte list" where
  "sbox_table =
     [
      0x63, 0x7c, 0x77, 0x7b, 0xf2, 0x6b, 0x6f, 0xc5, 0x30, 0x01, 0x67, 0x2b, 0xfe, 0xd7, 0xab, 0x76,
      0xca, 0x82, 0xc9, 0x7d, 0xfa, 0x59, 0x47, 0xf0, 0xad, 0xd4, 0xa2, 0xaf, 0x9c, 0xa4, 0x72, 0xc0,
      0xb7, 0xfd, 0x93, 0x26, 0x36, 0x3f, 0xf7, 0xcc, 0x34, 0xa5, 0xe5, 0xf1, 0x71, 0xd8, 0x31, 0x15,
      0x04, 0xc7, 0x23, 0xc3, 0x18, 0x96, 0x05, 0x9a, 0x07, 0x12, 0x80, 0xe2, 0xeb, 0x27, 0xb2, 0x75,
      0x09, 0x83, 0x2c, 0x1a, 0x1b, 0x6e, 0x5a, 0xa0, 0x52, 0x3b, 0xd6, 0xb3, 0x29, 0xe3, 0x2f, 0x84,
      0x53, 0xd1, 0x00, 0xed, 0x20, 0xfc, 0xb1, 0x5b, 0x6a, 0xcb, 0xbe, 0x39, 0x4a, 0x4c, 0x58, 0xcf,
      0xd0, 0xef, 0xaa, 0xfb, 0x43, 0x4d, 0x33, 0x85, 0x45, 0xf9, 0x02, 0x7f, 0x50, 0x3c, 0x9f, 0xa8,
      0x51, 0xa3, 0x40, 0x8f, 0x92, 0x9d, 0x38, 0xf5, 0xbc, 0xb6, 0xda, 0x21, 0x10, 0xff, 0xf3, 0xd2,
      0xcd, 0x0c, 0x13, 0xec, 0x5f, 0x97, 0x44, 0x17, 0xc4, 0xa7, 0x7e, 0x3d, 0x64, 0x5d, 0x19, 0x73,
      0x60, 0x81, 0x4f, 0xdc, 0x22, 0x2a, 0x90, 0x88, 0x46, 0xee, 0xb8, 0x14, 0xde, 0x5e, 0x0b, 0xdb,
      0xe0, 0x32, 0x3a, 0x0a, 0x49, 0x06, 0x24, 0x5c, 0xc2, 0xd3, 0xac, 0x62, 0x91, 0x95, 0xe4, 0x79,
      0xe7, 0xc8, 0x37, 0x6d, 0x8d, 0xd5, 0x4e, 0xa9, 0x6c, 0x56, 0xf4, 0xea, 0x65, 0x7a, 0xae, 0x08,
      0xba, 0x78, 0x25, 0x2e, 0x1c, 0xa6, 0xb4, 0xc6, 0xe8, 0xdd, 0x74, 0x1f, 0x4b, 0xbd, 0x8b, 0x8a,
      0x70, 0x3e, 0xb5, 0x66, 0x48, 0x03, 0xf6, 0x0e, 0x61, 0x35, 0x57, 0xb9, 0x86, 0xc1, 0x1d, 0x9e,
      0xe1, 0xf8, 0x98, 0x11, 0x69, 0xd9, 0x8e, 0x94, 0x9b, 0x1e, 0x87, 0xe9, 0xce, 0x55, 0x28, 0xdf,
      0x8c, 0xa1, 0x89, 0x0d, 0xbf, 0xe6, 0x42, 0x68, 0x41, 0x99, 0x2d, 0x0f, 0xb0, 0x54, 0xbb, 0x16]"

definition inv_sbox_table :: "byte list" where
  "inv_sbox_table =
     [
      0x52, 0x09, 0x6a, 0xd5, 0x30, 0x36, 0xa5, 0x38, 0xbf, 0x40, 0xa3, 0x9e, 0x81, 0xf3, 0xd7, 0xfb,
      0x7c, 0xe3, 0x39, 0x82, 0x9b, 0x2f, 0xff, 0x87, 0x34, 0x8e, 0x43, 0x44, 0xc4, 0xde, 0xe9, 0xcb,
      0x54, 0x7b, 0x94, 0x32, 0xa6, 0xc2, 0x23, 0x3d, 0xee, 0x4c, 0x95, 0x0b, 0x42, 0xfa, 0xc3, 0x4e,
      0x08, 0x2e, 0xa1, 0x66, 0x28, 0xd9, 0x24, 0xb2, 0x76, 0x5b, 0xa2, 0x49, 0x6d, 0x8b, 0xd1, 0x25,
      0x72, 0xf8, 0xf6, 0x64, 0x86, 0x68, 0x98, 0x16, 0xd4, 0xa4, 0x5c, 0xcc, 0x5d, 0x65, 0xb6, 0x92,
      0x6c, 0x70, 0x48, 0x50, 0xfd, 0xed, 0xb9, 0xda, 0x5e, 0x15, 0x46, 0x57, 0xa7, 0x8d, 0x9d, 0x84,
      0x90, 0xd8, 0xab, 0x00, 0x8c, 0xbc, 0xd3, 0x0a, 0xf7, 0xe4, 0x58, 0x05, 0xb8, 0xb3, 0x45, 0x06,
      0xd0, 0x2c, 0x1e, 0x8f, 0xca, 0x3f, 0x0f, 0x02, 0xc1, 0xaf, 0xbd, 0x03, 0x01, 0x13, 0x8a, 0x6b,
      0x3a, 0x91, 0x11, 0x41, 0x4f, 0x67, 0xdc, 0xea, 0x97, 0xf2, 0xcf, 0xce, 0xf0, 0xb4, 0xe6, 0x73,
      0x96, 0xac, 0x74, 0x22, 0xe7, 0xad, 0x35, 0x85, 0xe2, 0xf9, 0x37, 0xe8, 0x1c, 0x75, 0xdf, 0x6e,
      0x47, 0xf1, 0x1a, 0x71, 0x1d, 0x29, 0xc5, 0x89, 0x6f, 0xb7, 0x62, 0x0e, 0xaa, 0x18, 0xbe, 0x1b,
      0xfc, 0x56, 0x3e, 0x4b, 0xc6, 0xd2, 0x79, 0x20, 0x9a, 0xdb, 0xc0, 0xfe, 0x78, 0xcd, 0x5a, 0xf4,
      0x1f, 0xdd, 0xa8, 0x33, 0x88, 0x07, 0xc7, 0x31, 0xb1, 0x12, 0x10, 0x59, 0x27, 0x80, 0xec, 0x5f,
      0x60, 0x51, 0x7f, 0xa9, 0x19, 0xb5, 0x4a, 0x0d, 0x2d, 0xe5, 0x7a, 0x9f, 0x93, 0xc9, 0x9c, 0xef,
      0xa0, 0xe0, 0x3b, 0x4d, 0xae, 0x2a, 0xf5, 0xb0, 0xc8, 0xeb, 0xbb, 0x3c, 0x83, 0x53, 0x99, 0x61,
      0x17, 0x2b, 0x04, 0x7e, 0xba, 0x77, 0xd6, 0x26, 0xe1, 0x69, 0x14, 0x63, 0x55, 0x21, 0x0c, 0x7d]"

definition sub_byte :: "byte \<Rightarrow> byte" where
  "sub_byte b = sbox_table ! unat b"

definition inv_sub_byte :: "byte \<Rightarrow> byte" where
  "inv_sub_byte b = inv_sbox_table ! unat b"

definition shift_rows :: "byte list \<Rightarrow> byte list" where
  "shift_rows st = map (\<lambda>i. st ! i) [0, 5, 10, 15, 4, 9, 14, 3, 8, 13, 2, 7, 12, 1, 6, 11]"

definition inv_shift_rows :: "byte list \<Rightarrow> byte list" where
  "inv_shift_rows st = map (\<lambda>i. st ! i) [0, 13, 10, 7, 4, 1, 14, 11, 8, 5, 2, 15, 12, 9, 6, 3]"

text \<open>Multiplication by \<open>x\<close> in GF(2^8), modulo \<open>x^8 + x^4 + x^3 + x + 1\<close>.\<close>

definition xtime :: "byte \<Rightarrow> byte" where
  "xtime b = push_bit 1 b XOR (if bit b 7 then 0x1b else 0)"

definition mul3 :: "byte \<Rightarrow> byte" where
  "mul3 b = xtime b XOR b"

definition mul9 :: "byte \<Rightarrow> byte" where
  "mul9 b = xtime (xtime (xtime b)) XOR b"

definition mul11 :: "byte \<Rightarrow> byte" where
  "mul11 b = xtime (xtime (xtime b)) XOR xtime b XOR b"

definition mul13 :: "byte \<Rightarrow> byte" where
  "mul13 b = xtime (xtime (xtime b)) XOR xtime (xtime b) XOR b"

definition mul14 :: "byte \<Rightarrow> byte" where
  "mul14 b = xtime (xtime (xtime b)) XOR xtime (xtime b) XOR xtime b"

fun mix_columns :: "byte list \<Rightarrow> byte list" where
  "mix_columns (a # b # c # d # rest) =
     [xtime a XOR mul3 b XOR c XOR d,
      a XOR xtime b XOR mul3 c XOR d,
      a XOR b XOR xtime c XOR mul3 d,
      mul3 a XOR b XOR c XOR xtime d] @ mix_columns rest"
| "mix_columns rest = []"

fun inv_mix_columns :: "byte list \<Rightarrow> byte list" where
  "inv_mix_columns (a # b # c # d # rest) =
     [mul14 a XOR mul11 b XOR mul13 c XOR mul9 d,
      mul9 a XOR mul14 b XOR mul11 c XOR mul13 d,
      mul13 a XOR mul9 b XOR mul14 c XOR mul11 d,
      mul11 a XOR mul13 b XOR mul9 c XOR mul14 d] @ inv_mix_columns rest"
| "inv_mix_columns rest = []"

definition xor_words :: "byte list \<Rightarrow> byte list \<Rightarrow> byte list" where
  "xor_words xs ys = map (\<lambda>(x, y). x XOR y) (zip xs ys)"

definition add_round_key :: "byte list \<Rightarrow> byte list \<Rightarrow> byte list" where
  "add_round_key k st = xor_words st k"

text \<open>
  The rounds after the first key addition: every round but the last mixes the
  columns. The inverse undoes them from the last round back.
\<close>

fun rounds :: "byte list list \<Rightarrow> byte list \<Rightarrow> byte list" where
  "rounds [] st = st"
| "rounds [k] st = add_round_key k (shift_rows (map sub_byte st))"
| "rounds (k # ks) st =
     rounds ks (add_round_key k (mix_columns (shift_rows (map sub_byte st))))"

fun inv_rounds :: "byte list list \<Rightarrow> byte list \<Rightarrow> byte list" where
  "inv_rounds [] st = st"
| "inv_rounds [k] st = map inv_sub_byte (inv_shift_rows (add_round_key k st))"
| "inv_rounds (k # ks) st =
     map inv_sub_byte (inv_shift_rows (inv_mix_columns (add_round_key k (inv_rounds ks st))))"

definition cipher :: "byte list list \<Rightarrow> byte list \<Rightarrow> byte list" where
  "cipher round_keys st =
     (case round_keys of [] \<Rightarrow> st | k # ks \<Rightarrow> rounds ks (add_round_key k st))"

definition inv_cipher :: "byte list list \<Rightarrow> byte list \<Rightarrow> byte list" where
  "inv_cipher round_keys st =
     (case round_keys of [] \<Rightarrow> st | k # ks \<Rightarrow> add_round_key k (inv_rounds ks st))"

text \<open>
  The key expansion. The key is \<open>Nk\<close> words of four bytes; the words that follow
  are each the word \<open>Nk\<close> places before, combined with the word just before, which
  is rotated, substituted and combined with a round constant at every multiple of
  \<open>Nk\<close>, and substituted at the fourth place after one when \<open>Nk\<close> is over 6. There
  are \<open>Nk + 7\<close> round keys of four words.
\<close>

fun chunks :: "nat \<Rightarrow> 'a list \<Rightarrow> 'a list list" where
  "chunks n xs = (if n = 0 \<or> xs = [] then [] else take n xs # chunks n (drop n xs))"

declare chunks.simps [simp del]

definition rcon :: "nat \<Rightarrow> byte list" where
  "rcon i = [(xtime ^^ (i - 1)) 1, 0, 0, 0]"

definition next_word :: "nat \<Rightarrow> byte list list \<Rightarrow> byte list" where
  "next_word Nk ws =
     (let i = length ws;
          temp = last ws;
          temp' = (if i mod Nk = 0 then xor_words (map sub_byte (rotate1 temp)) (rcon (i div Nk))
                   else if 6 < Nk \<and> i mod Nk = 4 then map sub_byte temp
                   else temp)
      in xor_words (ws ! (i - Nk)) temp')"

fun expand :: "nat \<Rightarrow> nat \<Rightarrow> byte list list \<Rightarrow> byte list list" where
  "expand Nk 0 ws = ws"
| "expand Nk (Suc n) ws = expand Nk n (ws @ [next_word Nk ws])"

definition round_keys :: "byte list \<Rightarrow> byte list list" where
  "round_keys key =
     (let Nk = length key div 4
      in chunks 16 (concat (expand Nk (4 * (Nk + 7) - Nk) (chunks 4 key))))"

definition bytes_of :: "string \<Rightarrow> byte list" where
  "bytes_of s = map (\<lambda>c. word_of_nat (of_char c)) s"

definition string_of :: "byte list \<Rightarrow> string" where
  "string_of bs = map (\<lambda>b. char_of (unat b)) bs"

definition aes_encrypt_block :: "string \<Rightarrow> string \<Rightarrow> string" where
  "aes_encrypt_block key block =
     string_of (cipher (round_keys (bytes_of key)) (bytes_of block))"

text \<open>
  Modelled from the spec: decryption is not in the source; this is the inverse
  cipher of FIPS 197 with the same round keys, for the spec's "decrypting with the
  same key/IV".
\<close>

definition aes_decrypt_block :: "string \<Rightarrow> string \<Rightarrow> string" where
  "aes_decrypt_block key block =
     string_of (inv_cipher (round_keys (bytes_of key)) (bytes_of block))"

section \<open>AES in CBC mode (node-forge)\<close>

text \<open>
  Modelled from the spec: the cipher of lines 182 to 186 is node-forge's, which is
  not part of the repository; the specification says "Encrypt the plaintext with
  AES in CBC mode using the fixed key and IV". The calls are
  \<^verbatim>\<open>createEncryptionCipher(key, 'CBC')\<close>, \<^verbatim>\<open>start(iv)\<close>, \<^verbatim>\<open>update(buffer)\<close> and
  \<^verbatim>\<open>finish()\<close>. The buffer holds one byte for each character of the plaintext;
  \<^verbatim>\<open>finish\<close> adds PKCS#7 padding, between 1 and 16 bytes that each hold their number;
  each block of 16 bytes is combined by exclusive or with the block before it in
  the output (the IV for the first) and enciphered with AES under the key. The key
  and the IV are taken to be what the cipher accepts: a key of 16, 24 or 32 bytes
  and an IV of one block.
\<close>

definition xor_bytes :: "string \<Rightarrow> string \<Rightarrow> string" where
  "xor_bytes xs ys =
     map (\<lambda>(x, y). char_of (Bit_Operations.xor (of_char x :: nat) (of_char y))) (zip xs ys)"

definition pkcs7_pad :: "string \<Rightarrow> string" where
  "pkcs7_pad bs =
     bs @ replicate (16 - length bs mod 16) (char_of (16 - length bs mod 16))"

fun cbc_encrypt :: "(string \<Rightarrow> string) \<Rightarrow> string \<Rightarrow> string \<Rightarrow> string" where
  "cbc_encrypt encrypt_block prev input =
     (if input = [] then []
      else (let out = encrypt_block (xor_bytes (take 16 input) prev)
            in out @ cbc_encrypt encrypt_block out (drop 16 input)))"

declare cbc_encrypt.simps [simp del]

definition aes_cbc_encrypt :: "string \<Rightarrow> string \<Rightarrow> string \<Rightarrow> string" where
  "aes_cbc_encrypt key iv plaintext =
     cbc_encrypt (aes_encrypt_block key) iv (pkcs7_pad plaintext)"

text \<open>
  Modelled from the spec: decryption is not in the source. This is CBC decryption
  for the spec's "decrypting with the same key/IV": each block is deciphered and
  combined with the ciphertext block before it, and the padding is removed by the
  count in the last byte.
\<close>

fun cbc_decrypt :: "(string \<Rightarrow> string) \<Rightarrow> string \<Rightarrow> string \<Rightarrow> string" where
  "cbc_decrypt decrypt_block prev input =
     (if input = [] then []
      else xor_bytes (decrypt_block (take 16 input)) prev
             @ cbc_decrypt decrypt_block (take 16 input) (drop 16 input))"

declare cbc_decrypt.simps [simp del]

definition pkcs7_unpad :: "string \<Rightarrow> string" where
  "pkcs7_unpad bs = (if bs = [] then [] else take (length bs - of_char (last bs)) bs)"

definition spec_aes_cbc_decrypt :: "string \<Rightarrow> string \<Rightarrow> string \<Rightarrow> string" where
  "spec_aes_cbc_decrypt key iv ciphertext =
     pkcs7_unpad (cbc_decrypt (aes_decrypt_block key) iv ciphertext)"

section \<open>Checkout\<close>

fun SKU_TO_PAYPRO_ID :: "SKU \<Rightarrow> int" where
  "SKU_TO_PAYPRO_ID ProMonthly = 79920"
| "SKU_TO_PAYPRO_ID ProAnnual = 82586"
| "SKU_TO_PAYPRO_ID TeamAnnual = 82587"
| "SKU_TO_PAYPRO_ID TeamMonthly = 82588"
| "SKU_TO_PAYPRO_ID ProPerpetual = - 1"

definition PAYPRO_CURRENCIES :: "string list" where
  "PAYPRO_CURRENCIES =
     [
      ''AFN'', ''DZD'', ''AED'', ''ARS'', ''AMD'', ''AUD'', ''AZN'', ''BSD'', ''BHD'', ''BDT'',
      ''BBD'', ''BYN'', ''BZD'', ''BMD'', ''BOB'', ''BWP'', ''BRL'', ''GBP'', ''BND'', ''BGN'',
      ''CAD'', ''CVE'', ''KYD'', ''XOF'', ''CLP'', ''COP'', ''CRC'', ''HRK'', ''CZK'', ''DKK'',
      ''DJF'', ''DOP'', ''XCD'', ''EGP'', ''EUR'', ''FJD'', ''GEL'', ''GTQ'', ''HNL'', ''HKD'',
      ''HUF'', ''ISK'', ''INR'', ''IDR'', ''ILS'', ''JOD'', ''KHR'', ''KZT'', ''KES'', ''BAM'',
      ''KRW'', ''KWD'', ''KGS'', ''LAK'', ''LBP'', ''MOP'', ''MKD'', ''MYR'', ''MVR'', ''MXN'',
      ''MDL'', ''MNT'', ''MAD'', ''NAD'', ''TRY'', ''NZD'', ''NGN'', ''NOK'', ''OMR'', ''PKR'',
      ''PAB'', ''PGK'', ''PYG'', ''PEN'', ''PHP'', ''PLN'', ''QAR'', ''RON'', ''RUB'', ''SAR'',
      ''RSD'', ''SGD'', ''ZAR'', ''LKR'', ''SEK'', ''CHF'', ''TWD'', ''TZS'', ''THB'', ''TMT'',
      ''TTD'', ''TND'', ''TJS'', ''UAH'', ''USD'', ''UYU'', ''UZS'', ''YER'', ''CNY'', ''JPY'']"

record 'n checkout_options =
  sku :: SKU
  email :: "string option"
  quantity :: "'n option"
  countryCode :: "string option"
  currency :: string
  price :: 'n
  source :: string
  returnUrl :: "string option"
  passthrough :: "string option"

text \<open>
  What the code takes from outside: \<^verbatim>\<open>toString()\<close> and truthiness of numbers, the
  rate collaborator \<^verbatim>\<open>getLatestRates\<close> (an error, or the object of rates read by
  currency code, \<open>None\<close> for \<^verbatim>\<open>undefined\<close>).
\<close>

record 'n runtime =
  number_toString :: "'n \<Rightarrow> string"
  number_truthy :: "'n \<Rightarrow> bool"
  getLatestRates :: "string \<Rightarrow> err + (string \<rightharpoonup> 'n)"

text \<open>
  Lines 157 to 179: the product parameters, with the calls made on the way. The
  await of \<^verbatim>\<open>getLatestRates\<close> passes its rejection on.
\<close>

definition no_rate_message :: "string \<Rightarrow> string" where
  "no_rate_message c =
     ''Can't show PayPro checkout for currency '' @ c @ '' with no USD rate available''"

definition productParams ::
  "'n runtime \<Rightarrow> 'n checkout_options \<Rightarrow> effect list \<times> (err + params)" where
  "productParams rt options =
     (if currency options \<in> set PAYPRO_CURRENCIES then
        ([], Inr (params_set [] (''price['' @ currency options @ ''][Amount]'')
                    (number_toString rt (price options))))
      else
        ([ReportError (Inr (''Opening unsupported '' @ currency options @ '' PayPro checkout'')),
          GetLatestRates ''USD''],
         (case getLatestRates rt ''USD'' of
            Inl e \<Rightarrow> Inl e
          | Inr allUsdRates \<Rightarrow>
              (case allUsdRates (currency options) of
                 None \<Rightarrow> Inl (Error (no_rate_message (currency options)))
               | Some usdRate \<Rightarrow>
                   if \<not> number_truthy rt usdRate
                   then Inl (Error (no_rate_message (currency options)))
                   else Inr (params_set [] ''price[USD][Amount]''
                               (number_toString rt usdRate))))))"

text \<open>Lines 144 to 152: the visible parameters.\<close>

definition visibleParams :: "'n checkout_options \<Rightarrow> params" where
  "visibleParams options =
     (let p0 = params_set [] ''currency'' (currency options);
          p1 = set_if_truthy p0 ''billing-email'' (email options);
          p2 = set_if_truthy p1 ''billing-country'' (countryCode options);
          p3 = set_if_truthy p2 ''x-source'' (Some (source options));
          p4 = set_if_truthy p3 ''x-passthrough'' (passthrough options)
      in set_if_truthy p4 ''x-return-url'' (returnUrl options))"

text \<open>Lines 188 to 190: the product id, the quantity when truthy, the data.\<close>

definition withProduct ::
  "'n runtime \<Rightarrow> 'n checkout_options \<Rightarrow> params \<Rightarrow> string \<Rightarrow> params" where
  "withProduct rt options checkoutParams encryptedParams =
     (let p0 = params_set checkoutParams ''products[1][id]''
                 (show_int (SKU_TO_PAYPRO_ID (sku options)));
          p1 = (case quantity options of
                  None \<Rightarrow> p0
                | Some q \<Rightarrow>
                    if number_truthy rt q
                    then params_set p0 ''products[1][qty]'' (number_toString rt q)
                    else p0)
      in params_set p1 ''products[1][data]'' (encode64 encryptedParams))"

definition createCheckout ::
  "'n runtime \<Rightarrow> config \<Rightarrow> 'n checkout_options \<Rightarrow> effect list \<times> (err + string)" where
  "createCheckout rt cfg options =
     (let checkoutParams = visibleParams options
      in case productParams rt options of
           (effects, Inl e) \<Rightarrow> (effects, Inl e)
         | (effects, Inr product) \<Rightarrow>
             (let plaintext = params_toString product;
                  encryptedParams =
                    aes_cbc_encrypt (PAYPRO_PARAM_KEY cfg) (PAYPRO_PARAM_IV cfg) plaintext
              in (effects @ [AesEncrypt plaintext],
                  Inr (PAYPRO_API_BASE_URL cfg @ ''/checkout?''
                         @ params_toString
                             (withProduct rt options checkoutParams encryptedParams)))))"

section \<open>Cancellation\<close>

datatype 'n json =
    JNull
  | JBool bool
  | JNumber 'n
  | JString string
  | JArray "'n json list"
  | JObject "(string \<times> 'n json) list"

text \<open>
  The request of \<^verbatim>\<open>fetch\<close>; its body is the value given to \<^verbatim>\<open>JSON.stringify\<close>, an
  object whose undefined properties are left out. The response: its status, and
  what \<^verbatim>\<open>response.json()\<close> gives, the parsed body or a rejection.
\<close>

record 'n request =
  req_url :: string
  req_method :: string
  req_headers :: "(string \<times> string) list"
  req_body :: "'n json"

record 'n response =
  status :: nat
  statusText :: string
  response_json :: "err + 'n json"

definition ok :: "'n response \<Rightarrow> bool" where
  "ok r \<longleftrightarrow> 200 \<le> status r \<and> status r \<le> 299"

definition optional_property :: "string \<Rightarrow> string option \<Rightarrow> (string \<times> 'n json) list" where
  "optional_property name x = (case x of None \<Rightarrow> [] | Some v \<Rightarrow> [(name, JString v)])"

definition cancel_request :: "config \<Rightarrow> string + 'n \<Rightarrow> 'n request" where
  "cancel_request cfg subscriptionId =
     \<lparr> req_url = PAYPRO_API_BASE_URL cfg @ ''/api/Subscriptions/Terminate'',
       req_method = ''POST'',
       req_headers = [(''content-type'', ''application/json'')],
       req_body = JObject
         (optional_property ''vendorAccountId'' (PAYPRO_ACCOUNT_ID cfg)
          @ optional_property ''apiSecretKey'' (PAYPRO_API_KEY cfg)
          @ [(''reasonText'', JString ''API cancellation''),
             (''sendCustomerNotification'', JBool True),
             (''subscriptionId'',
                (case subscriptionId of Inl s \<Rightarrow> JString s | Inr n \<Rightarrow> JNumber n))]) \<rparr>"

text \<open>
  \<^verbatim>\<open>responseBody.isSuccess\<close>: a \<^verbatim>\<open>TypeError\<close> on \<^verbatim>\<open>null\<close>, the property of an object,
  \<^verbatim>\<open>undefined\<close> (\<open>None\<close>) where there is none; and the truthiness of what was read.
\<close>

fun get_property :: "'n json \<Rightarrow> string \<Rightarrow> err + 'n json option" where
  "get_property JNull name = Inl (TypeError (''Cannot read properties of null: '' @ name))"
| "get_property (JObject kvs) name = Inr (map_of kvs name)"
| "get_property _ name = Inr None"

fun truthy :: "('n \<Rightarrow> bool) \<Rightarrow> 'n json option \<Rightarrow> bool" where
  "truthy num None = False"
| "truthy num (Some JNull) = False"
| "truthy num (Some (JBool b)) = b"
| "truthy num (Some (JNumber n)) = num n"
| "truthy num (Some (JString s)) = (s \<noteq> [])"
| "truthy num (Some (JArray xs)) = True"
| "truthy num (Some (JObject kvs)) = True"

definition cancelSubscription ::
  "'n runtime \<Rightarrow> config \<Rightarrow> ('n request \<Rightarrow> err + 'n response) \<Rightarrow> string + 'n \<Rightarrow> err + unit" where
  "cancelSubscription rt cfg fetch subscriptionId =
     (case fetch (cancel_request cfg subscriptionId) of
        Inl e \<Rightarrow> Inl e
      | Inr response \<Rightarrow>
          if \<not> ok response then
            Inl (Error (''Unexpected '' @ show_nat (status response)
                          @ '' during PayPro cancellation''))
          else
            (case response_json response of
               Inl e \<Rightarrow> Inl e
             | Inr responseBody \<Rightarrow>
                 (case get_property responseBody ''isSuccess'' of
                    Inl e \<Rightarrow> Inl e
                  | Inr isSuccess \<Rightarrow>
                      if \<not> truthy (number_truthy rt) isSuccess then
                        Inl (Error ''PayPro cancellation request failed'')
                      else Inr ())))"

section \<open>Concrete inputs\<close>

text \<open>
  Inputs at which the theorems below are instantiated. The digest is a parameter
  of the model; \<open>length_digest\<close> stands in for it here, so that the instances can
  be evaluated.
\<close>

definition length_digest :: "string \<Rightarrow> string" where
  "length_digest s = show_nat (length s)"

definition example_config :: config where
  "example_config =
     \<lparr> PAYPRO_API_BASE_URL = ''https://store.payproglobal.com'',
       PAYPRO_ACCOUNT_ID = Some ''1234'',
       PAYPRO_API_KEY = Some ''api-key'',
       PAYPRO_PARAM_KEY = ''0123456789abcdef'',
       PAYPRO_PARAM_IV = ''fedcba9876543210'',
       PAYPRO_IPN_VALIDATION_KEY = Some ''secret'' \<rparr>"

definition example_notification :: PayProWebhookData where
  "example_notification =
     \<lparr> IPN_TYPE_NAME = OrderCharged,
       HASH = ''h1'',
       SIGNATURE = ''BAD-SIGNATURE'',
       TEST_MODE = TestMode0,
       CUSTOMER_EMAIL = ''test@email.com'',
       PRODUCT_ID = ''79920'',
       ORDER_ITEM_SKU = ProMonthly,
       PRODUCT_QUANTITY = ''1'',
       ORDER_ITEM_TOTAL_AMOUNT = ''14.00'',
       CUSTOMER_ID = ''123'',
       SUBSCRIPTION_ID = ''456'',
       ORDER_PLACED_TIME_UTC = ''03/21/2023 19:02:59'',
       INVOICE_LINK = None,
       SUBSCRIPTION_STATUS_NAME = Active,
       SUBSCRIPTION_NEXT_CHARGE_DATE = ''4/21/2023 1:45 PM'',
       SUBSCRIPTION_RENEWAL_TYPE = Auto,
       ORDER_ID = ''1001'',
       ORDER_STATUS = ''Processed'',
       ORDER_TOTAL_AMOUNT = ''14.00'',
       ORDER_CURRENCY_CODE = ''EUR'',
       ORDER_CUSTOM_FIELDS = ''x-source=web'' \<rparr>"

text \<open>
  The same signed fields and signature, every other field different.
\<close>

definition example_notification_other :: PayProWebhookData where
  "example_notification_other =
     \<lparr> IPN_TYPE_NAME = OrderCharged,
       HASH = ''h2'',
       SIGNATURE = ''BAD-SIGNATURE'',
       TEST_MODE = TestMode0,
       CUSTOMER_EMAIL = ''test@email.com'',
       PRODUCT_ID = ''82587'',
       ORDER_ITEM_SKU = TeamAnnual,
       PRODUCT_QUANTITY = ''25'',
       ORDER_ITEM_TOTAL_AMOUNT = ''9999.00'',
       CUSTOMER_ID = ''999'',
       SUBSCRIPTION_ID = ''777'',
       ORDER_PLACED_TIME_UTC = ''01/01/2030 00:00:00'',
       INVOICE_LINK = Some ''https://example.com/invoice'',
       SUBSCRIPTION_STATUS_NAME = Terminated,
       SUBSCRIPTION_NEXT_CHARGE_DATE = '''',
       SUBSCRIPTION_RENEWAL_TYPE = Manual,
       ORDER_ID = ''1001'',
       ORDER_STATUS = ''Processed'',
       ORDER_TOTAL_AMOUNT = ''14.00'',
       ORDER_CURRENCY_CODE = ''USD'',
       ORDER_CUSTOM_FIELDS = ''x-passthrough={},x-source=elsewhere'' \<rparr>"

definition example_runtime :: "int runtime" where
  "example_runtime =
     \<lparr> number_toString = show_int,
       number_truthy = (\<lambda>n. n \<noteq> 0),
       getLatestRates = (\<lambda>base. Inr [''VND'' \<mapsto> 25000]) \<rparr>"

definition example_response :: "nat \<Rightarrow> int json \<Rightarrow> int response" where
  "example_response code b =
     \<lparr> status = code, statusText = '''', response_json = Inr b \<rparr>"

definition eur_options :: "int checkout_options" where
  "eur_options =
     \<lparr> sku = ProMonthly,
       email = Some ''user@example.com'',
       quantity = None,
       countryCode = None,
       currency = ''EUR'',
       price = 14,
       source = ''web'',
       returnUrl = None,
       passthrough = None \<rparr>"

text \<open>
  A price of 250000 dong, a currency the provider does not list, with the rate of
  \<open>example_runtime\<close>, 25000 dong for one dollar: ten dollars.
\<close>

definition vnd_options :: "int checkout_options" where
  "vnd_options = eur_options \<lparr> currency := ''VND'', price := 250000 \<rparr>"

definition perpetual_options :: "int checkout_options" where
  "perpetual_options = eur_options \<lparr> sku := ProPerpetual, currency := ''USD'', price := 120 \<rparr>"

section \<open>Webhook validation\<close>

lemma signature_key_eq:
  "signature_key cfg data =
     ORDER_ID data @ ORDER_STATUS data @ ORDER_TOTAL_AMOUNT data @ CUSTOMER_EMAIL data
       @ (case PAYPRO_IPN_VALIDATION_KEY cfg of None \<Rightarrow> [] | Some k \<Rightarrow> k)
       @ test_mode_string (TEST_MODE data) @ ipn_type_string (IPN_TYPE_NAME data)"
  by (simp add: signature_key_def join_empty_def)

text \<open>
  C1. \<open>validatePayProWebhook\<close> returns normally exactly when \<open>SIGNATURE\<close> is the
  digest of \<open>ORDER_ID\<close>, \<open>ORDER_STATUS\<close>, \<open>ORDER_TOTAL_AMOUNT\<close>, \<open>CUSTOMER_EMAIL\<close>,
  the validation secret, \<open>TEST_MODE\<close> and \<open>IPN_TYPE_NAME\<close>, concatenated in this
  order with nothing between them (an unset secret is the empty string, as
  \<^verbatim>\<open>join\<close> makes it). On a mismatch the error is a \<open>StatusError\<close> with code 403,
  never a generic \<open>Error\<close>.
\<close>

theorem validatePayProWebhook_signature:
  "(validatePayProWebhook sha256_hex cfg data = Inr ()
      \<longleftrightarrow> SIGNATURE data =
            sha256_hex (ORDER_ID data @ ORDER_STATUS data @ ORDER_TOTAL_AMOUNT data
              @ CUSTOMER_EMAIL data
              @ (case PAYPRO_IPN_VALIDATION_KEY cfg of None \<Rightarrow> [] | Some k \<Rightarrow> k)
              @ test_mode_string (TEST_MODE data) @ ipn_type_string (IPN_TYPE_NAME data)))
   \<and> (SIGNATURE data \<noteq>
            sha256_hex (ORDER_ID data @ ORDER_STATUS data @ ORDER_TOTAL_AMOUNT data
              @ CUSTOMER_EMAIL data
              @ (case PAYPRO_IPN_VALIDATION_KEY cfg of None \<Rightarrow> [] | Some k \<Rightarrow> k)
              @ test_mode_string (TEST_MODE data) @ ipn_type_string (IPN_TYPE_NAME data))
        \<longrightarrow> (\<exists>m. validatePayProWebhook sha256_hex cfg data = Inl (StatusError 403 m))
            \<and> (\<forall>m. validatePayProWebhook sha256_hex cfg data \<noteq> Inl (Error m)))"
  by (simp add: validatePayProWebhook_def expectedSignature_def signature_key_eq)

theorem validatePayProWebhook_signature_witness:
  "(\<exists>m. validatePayProWebhook length_digest example_config example_notification
           = Inl (StatusError 403 m))
   \<and> validatePayProWebhook length_digest example_config
        (example_notification\<lparr>SIGNATURE := ''51''\<rparr>) = Inr ()"
  using validatePayProWebhook_signature [of length_digest example_config example_notification]
    validatePayProWebhook_signature [of length_digest example_config
      "example_notification\<lparr>SIGNATURE := ''51''\<rparr>"]
  by (simp add: example_config_def example_notification_def length_digest_def show_nat.simps)

text \<open>
  C9. Two notifications that agree on the six signed fields and on \<open>SIGNATURE\<close>
  are both accepted or both rejected (with the same error), whatever their other
  fields hold.
\<close>

theorem validatePayProWebhook_signed_fields_only:
  assumes "ORDER_ID d1 = ORDER_ID d2"
    and "ORDER_STATUS d1 = ORDER_STATUS d2"
    and "ORDER_TOTAL_AMOUNT d1 = ORDER_TOTAL_AMOUNT d2"
    and "CUSTOMER_EMAIL d1 = CUSTOMER_EMAIL d2"
    and "TEST_MODE d1 = TEST_MODE d2"
    and "IPN_TYPE_NAME d1 = IPN_TYPE_NAME d2"
    and "SIGNATURE d1 = SIGNATURE d2"
  shows "(validatePayProWebhook sha256_hex cfg d1 = Inr ()
            \<and> validatePayProWebhook sha256_hex cfg d2 = Inr ())
       \<or> (\<exists>e. validatePayProWebhook sha256_hex cfg d1 = Inl e
            \<and> validatePayProWebhook sha256_hex cfg d2 = Inl e)"
  using assms
  by (simp add: validatePayProWebhook_def expectedSignature_def signature_key_def)

theorem validatePayProWebhook_signed_fields_only_witness:
  "HASH example_notification \<noteq> HASH example_notification_other
   \<and> ORDER_CUSTOM_FIELDS example_notification
       \<noteq> ORDER_CUSTOM_FIELDS example_notification_other
   \<and> ORDER_ITEM_TOTAL_AMOUNT example_notification
       \<noteq> ORDER_ITEM_TOTAL_AMOUNT example_notification_other
   \<and> validatePayProWebhook length_digest example_config example_notification
       = validatePayProWebhook length_digest example_config example_notification_other"
  using validatePayProWebhook_signed_fields_only
    [of example_notification example_notification_other length_digest example_config]
  by (auto simp add: example_notification_def example_notification_other_def)

text \<open>
  C10. When a notification is rejected, the message of the error contains the
  expected signature, which is the valid one for the submitted fields (the same
  notification with it as \<open>SIGNATURE\<close> is accepted); and \<open>catchErrors\<close> around a
  handler that raises this error answers with status 403 and the message as the
  body.
\<close>

theorem rejection_discloses_signature:
  assumes "validatePayProWebhook sha256_hex cfg data = Inl e"
  shows "sublist (expectedSignature sha256_hex cfg data) (message e)
       \<and> validatePayProWebhook sha256_hex cfg
           (data\<lparr>SIGNATURE := expectedSignature sha256_hex cfg data\<rparr>) = Inr ()
       \<and> (\<forall>handler event. handler event = Inl e \<longrightarrow>
            snd (catchErrors handler event)
              = Inr \<lparr> statusCode = 403,
                      headers = [(''Cache-Control'', ''no-store'')],
                      body = message e \<rparr>)"
proof -
  let ?x = "expectedSignature sha256_hex cfg data"
  from assms have e: "e = StatusError 403
      (''PayPro IPN signature did not match - expected '' @ ?x
         @ '' but received '' @ SIGNATURE data)"
    by (auto simp add: validatePayProWebhook_def split: if_splits)
  have "sublist ?x (message e)"
    unfolding e message.simps by (intro sublist_appendI)
  moreover have "validatePayProWebhook sha256_hex cfg (data\<lparr>SIGNATURE := ?x\<rparr>) = Inr ()"
    by (simp add: validatePayProWebhook_def expectedSignature_def signature_key_def)
  moreover have "\<forall>handler event. handler event = Inl e \<longrightarrow>
            snd (catchErrors handler event)
              = Inr \<lparr> statusCode = 403,
                      headers = [(''Cache-Control'', ''no-store'')],
                      body = message e \<rparr>"
    by (simp add: catchErrors_def e)
  ultimately show ?thesis by blast
qed

theorem rejection_discloses_signature_witness:
  "validatePayProWebhook length_digest example_config example_notification
     = Inl (StatusError 403
         ''PayPro IPN signature did not match - expected 51 but received BAD-SIGNATURE'')
   \<and> expectedSignature length_digest example_config example_notification = ''51''
   \<and> sublist ''51''
       ''PayPro IPN signature did not match - expected 51 but received BAD-SIGNATURE''
   \<and> snd (catchErrors
       (\<lambda>event. case validatePayProWebhook length_digest example_config event of
                  Inl e \<Rightarrow> Inl e
                | Inr u \<Rightarrow> Inr \<lparr> statusCode = 200, headers = [], body = '''' \<rparr>)
       example_notification)
     = Inr \<lparr> statusCode = 403,
             headers = [(''Cache-Control'', ''no-store'')],
             body = ''PayPro IPN signature did not match - expected 51 but received BAD-SIGNATURE'' \<rparr>"
proof -
  have x: "expectedSignature length_digest example_config example_notification = ''51''"
    by (simp add: expectedSignature_def signature_key_eq example_config_def
        example_notification_def length_digest_def show_nat.simps)
  have h: "validatePayProWebhook length_digest example_config example_notification
     = Inl (StatusError 403
         ''PayPro IPN signature did not match - expected 51 but received BAD-SIGNATURE'')"
    by (simp add: validatePayProWebhook_def x) (simp add: example_notification_def)
  let ?m = "''PayPro IPN signature did not match - expected 51 but received BAD-SIGNATURE''"
  let ?handler = "\<lambda>event. case validatePayProWebhook length_digest example_config event of
                  Inl e \<Rightarrow> Inl e
                | Inr u \<Rightarrow> Inr \<lparr> statusCode = 200, headers = [], body = '''' \<rparr>"
  have r: "?handler example_notification = Inl (StatusError 403 ?m)"
    by (simp add: h)
  note R = rejection_discloses_signature [OF h, unfolded x message.simps]
  from R have s: "sublist ''51'' ?m"
    by (rule conjunct1)
  from R have c: "\<forall>handler event. handler event = Inl (StatusError 403 ?m) \<longrightarrow>
            snd (catchErrors handler event)
              = Inr \<lparr> statusCode = 403,
                      headers = [(''Cache-Control'', ''no-store'')],
                      body = ?m \<rparr>"
    by (rule conjunct2 [THEN conjunct2])
  note c' = c [rule_format, of ?handler example_notification, OF r]
  show ?thesis
    by (intro conjI) (rule h, rule x, rule s, rule c')
qed

section \<open>Cancellation outcomes\<close>

text \<open>
  C7. \<open>cancelSubscription\<close> raises the error of the transport, naming the status,
  when the response has a status of 400 or more; raises another error, with a
  different message, when the status is 200 and the body's \<open>isSuccess\<close> is false;
  and returns normally when the status is 200 and \<open>isSuccess\<close> is true.
\<close>

theorem cancelSubscription_outcomes:
  "(fetch (cancel_request cfg subscriptionId) = Inr r \<and> 400 \<le> status r \<longrightarrow>
      cancelSubscription rt cfg fetch subscriptionId
        = Inl (Error (''Unexpected '' @ show_nat (status r) @ '' during PayPro cancellation'')))
   \<and> (fetch (cancel_request cfg subscriptionId) = Inr r \<and> status r = 200
        \<and> response_json r = Inr (JObject kvs)
        \<and> map_of kvs ''isSuccess'' = Some (JBool False) \<longrightarrow>
      cancelSubscription rt cfg fetch subscriptionId
        = Inl (Error ''PayPro cancellation request failed''))
   \<and> (fetch (cancel_request cfg subscriptionId) = Inr r \<and> status r = 200
        \<and> response_json r = Inr (JObject kvs)
        \<and> map_of kvs ''isSuccess'' = Some (JBool True) \<longrightarrow>
      cancelSubscription rt cfg fetch subscriptionId = Inr ())
   \<and> Error (''Unexpected '' @ show_nat (status r) @ '' during PayPro cancellation'')
        \<noteq> Error ''PayPro cancellation request failed''"
  by (simp add: cancelSubscription_def ok_def)

theorem cancelSubscription_outcomes_witness:
  "cancelSubscription example_runtime example_config
      (\<lambda>req. Inr (example_response 500 JNull)) (Inl ''456'')
     = Inl (Error ''Unexpected 500 during PayPro cancellation'')
   \<and> cancelSubscription example_runtime example_config
      (\<lambda>req. Inr (example_response 200
         (JObject [(''isSuccess'', JBool False), (''errors'', JArray [JString ''x''])])))
      (Inl ''456'')
     = Inl (Error ''PayPro cancellation request failed'')
   \<and> cancelSubscription example_runtime example_config
      (\<lambda>req. Inr (example_response 200 (JObject [(''isSuccess'', JBool True)])))
      (Inl ''456'')
     = Inr ()"
  using
    cancelSubscription_outcomes [of "\<lambda>req. Inr (example_response 500 JNull)"
      example_config "Inl ''456''" "example_response 500 JNull" example_runtime "[]"]
    cancelSubscription_outcomes [of "\<lambda>req. Inr (example_response 200
         (JObject [(''isSuccess'', JBool False), (''errors'', JArray [JString ''x''])]))"
      example_config "Inl ''456''" "example_response 200
         (JObject [(''isSuccess'', JBool False), (''errors'', JArray [JString ''x''])])"
      example_runtime "[(''isSuccess'', JBool False), (''errors'', JArray [JString ''x''])]"]
    cancelSubscription_outcomes [of "\<lambda>req. Inr (example_response 200
         (JObject [(''isSuccess'', JBool True)]))"
      example_config "Inl ''456''" "example_response 200 (JObject [(''isSuccess'', JBool True)])"
      example_runtime "[(''isSuccess'', JBool True)]"]
  by (simp add: example_response_def show_nat.simps)

section \<open>Custom fields: what the parser returns\<close>

lemma match_value_append: "match_value cs = Some (v, r) \<Longrightarrow> cs = v @ r"
  by (induction cs arbitrary: v r) (auto split: if_splits option.splits)

lemma match_at_append:
  assumes "match_at cs = Some (k, v, r)"
  shows "cs = ''x-'' @ k @ ''='' @ v @ r"
proof -
  from assms have x: "take 2 cs = ''x-''"
    by (auto simp add: match_at_def split: if_splits)
  from assms x obtain t where k: "k = takeWhile word_char (drop 2 cs)"
    and d: "dropWhile word_char (drop 2 cs) = CHR ''='' # t"
    and m: "match_value t = Some (v, r)"
    by (auto simp add: match_at_def Let_def split: if_splits list.splits option.splits)
  have "cs = take 2 cs @ takeWhile word_char (drop 2 cs) @ dropWhile word_char (drop 2 cs)"
    by simp
  with x k d match_value_append [OF m] show ?thesis
    by simp
qed

lemma search_suffix:
  "search cs = Some (k, v, r) \<Longrightarrow> \<exists>pre. cs = pre @ ''x-'' @ k @ ''='' @ v @ r"
proof (induction cs)
  case Nil
  then show ?case by (simp add: match_at_def)
next
  case (Cons c cs)
  show ?case
  proof (cases "match_at (c # cs)")
    case None
    with Cons.prems have "search cs = Some (k, v, r)" by simp
    from Cons.IH [OF this] obtain pre where "cs = pre @ ''x-'' @ k @ ''='' @ v @ r" ..
    then have "c # cs = (c # pre) @ ''x-'' @ k @ ''='' @ v @ r" by simp
    then show ?thesis ..
  next
    case (Some m)
    with Cons.prems have "match_at (c # cs) = Some (k, v, r)" by simp
    from match_at_append [OF this] have "c # cs = [] @ ''x-'' @ k @ ''='' @ v @ r" by simp
    then show ?thesis ..
  qed
qed

lemma regex_exec_progress:
  assumes "regex_exec s i = Some (k, v, i')"
  shows "i < i' \<and> i' \<le> length s"
proof -
  from assms have le: "i \<le> length s"
    by (auto simp add: regex_exec_def split: if_splits)
  from assms le obtain r where s: "search (drop i s) = Some (k, v, r)"
    and i': "i' = length s - length r"
    by (auto simp add: regex_exec_def split: if_splits option.splits)
  from search_suffix [OF s] obtain pre where "drop i s = pre @ ''x-'' @ k @ ''='' @ v @ r" ..
  then have "length (drop i s) = length pre + length k + length v + length r + 3" by simp
  with le i' show ?thesis by simp
qed

lemma matches_None: "regex_exec s i = None \<Longrightarrow> matches s i = []"
  by (subst matches.simps) simp

lemma matches_Some:
  "regex_exec s i = Some (k, v, e) \<Longrightarrow> matches s i = (k, v, e) # matches s e"
  by (subst matches.simps) simp

lemma parse_loop_matches:
  "parse_loop s i m = Some (foldl (\<lambda>m (k, v, e). set_property m k v) m (matches s i))"
proof (induction s i arbitrary: m rule: matches.induct)
  case (1 s i)
  show ?case
  proof (cases "regex_exec s i")
    case None
    then show ?thesis by (subst parse_loop.simps) (simp add: matches_None)
  next
    case (Some a)
    obtain k v e where a: "a = (k, v, e)" by (cases a)
    from Some a "1.IH" [of "(k, v, e)" k "(v, e)" v e "set_property m k v"]
    show ?thesis
      by (subst parse_loop.simps) (simp add: matches_Some)
  qed
qed

lemma match_value_props:
  "match_value cs = Some (v, r) \<Longrightarrow>
     lookahead r \<and> \<not> list_ex line_terminator v
     \<and> (\<forall>n<length v. \<not> lookahead (drop n v @ r))"
proof (induction cs arbitrary: v r)
  case Nil
  then show ?case by (simp add: lookahead_def)
next
  case (Cons c cs)
  show ?case
  proof (cases "lookahead (c # cs)")
    case True
    with Cons.prems show ?thesis by simp
  next
    case False
    with Cons.prems obtain v' where nl: "\<not> line_terminator c"
      and m: "match_value cs = Some (v', r)" and v: "v = c # v'"
      by (auto split: if_splits option.splits)
    from Cons.IH [OF m] have ih: "lookahead r" "\<not> list_ex line_terminator v'"
      "\<forall>n<length v'. \<not> lookahead (drop n v' @ r)" by simp_all
    have "\<not> lookahead (drop n v @ r)" if "n < length v" for n
    proof (cases n)
      case 0
      with False match_value_append [OF m] v show ?thesis by simp
    next
      case (Suc n')
      with that v ih(3) show ?thesis by simp
    qed
    with ih nl v show ?thesis by simp
  qed
qed

lemma match_at_props:
  assumes "match_at cs = Some (k, v, r)"
  shows "k \<noteq> [] \<and> list_all word_char k \<and> lookahead r \<and> \<not> list_ex line_terminator v
     \<and> (\<forall>n<length v. \<not> lookahead (drop n v @ r))"
proof -
  from assms obtain t where k: "k = takeWhile word_char (drop 2 cs)" and ne: "k \<noteq> []"
    and m: "match_value t = Some (v, r)"
    by (auto simp add: match_at_def Let_def split: if_splits list.splits option.splits)
  have "list_all word_char k"
    unfolding k by (simp add: list_all_iff) (meson set_takeWhileD)
  with ne match_value_props [OF m] show ?thesis by simp
qed

lemma search_props:
  "search cs = Some (k, v, r) \<Longrightarrow>
     k \<noteq> [] \<and> list_all word_char k \<and> lookahead r \<and> \<not> list_ex line_terminator v
     \<and> (\<forall>n<length v. \<not> lookahead (drop n v @ r))"
proof (induction cs)
  case Nil
  then show ?case by (simp add: match_at_def)
next
  case (Cons c cs)
  then show ?case
    by (cases "match_at (c # cs)") (auto dest: match_at_props)
qed

lemma take_drop_middle:
  assumes "s = p @ f @ r" and "e = length p + length f"
  shows "take e s = p @ f" and "drop e s = r" and "drop (e - length f) (take e s) = f"
  using assms by simp_all

lemma regex_exec_field:
  assumes "regex_exec s i = Some (k, v, e)"
  shows "field_ends_at lookahead s k v e \<and> \<not> list_ex line_terminator v"
proof -
  from assms have le: "i \<le> length s"
    by (auto simp add: regex_exec_def split: if_splits)
  from assms le obtain r where sr: "search (drop i s) = Some (k, v, r)"
    and e: "e = length s - length r"
    by (auto simp add: regex_exec_def split: if_splits option.splits)
  from search_suffix [OF sr] obtain pre
    where d: "drop i s = pre @ ''x-'' @ k @ ''='' @ v @ r" ..
  define p where "p = take i s @ pre"
  define f where "f = ''x-'' @ k @ ''='' @ v"
  have lf: "length f = length k + length v + 3"
    by (simp add: f_def)
  have "s = take i s @ drop i s" by simp
  also have "\<dots> = p @ f @ r" by (simp add: d p_def f_def)
  finally have s: "s = p @ f @ r" .
  then have "length s = length p + length f + length r" by simp
  with e have e': "e = length p + length f" by simp
  note m = take_drop_middle [OF s e']
  from e' lf have b: "length k + length v + 3 \<le> e" "e \<le> length s"
    using s by simp_all
  from m(3) have "drop (e - (length k + length v + 3)) (take e s) = ''x-'' @ k @ ''='' @ v"
    by (simp add: lf) (simp add: f_def)
  with search_props [OF sr] b m(2) show ?thesis
    by (simp add: field_ends_at_def list_all_iff)
qed

lemma matches_fields:
  "(k, v, e) \<in> set (matches s i) \<Longrightarrow>
     field_ends_at lookahead s k v e \<and> \<not> list_ex line_terminator v"
proof (induction s i rule: matches.induct)
  case (1 s i)
  show ?case
  proof (cases "regex_exec s i")
    case None
    with "1.prems" show ?thesis by (simp add: matches_None)
  next
    case (Some a)
    obtain k' v' e' where a: "a = (k', v', e')" by (cases a)
    from "1.prems" Some a
    have "(k, v, e) = (k', v', e') \<or> (k, v, e) \<in> set (matches s e')"
      by (simp add: matches_Some)
    then show ?thesis
    proof
      assume "(k, v, e) = (k', v', e')"
      with Some a have "regex_exec s i = Some (k, v, e)" by simp
      then show ?thesis by (rule regex_exec_field)
    next
      assume "(k, v, e) \<in> set (matches s e')"
      with Some a show ?thesis
        by (intro "1.IH" [of a k' "(v', e')" v' e']) simp_all
    qed
  qed
qed

lemma field_entryI:
  assumes "field_ends_at stop s k v e"
  shows "field_entry stop s k v"
proof -
  from assms have "e \<in> set [0..<Suc (length s)]"
    by (auto simp add: field_ends_at_def)
  with assms show ?thesis
    unfolding field_entry_def list_ex_iff by blast
qed

lemma foldl_set_property_Some:
  "foldl (\<lambda>m (k, v, e). set_property m k v) m ms k = Some v \<Longrightarrow>
     m k = Some v \<or> (\<exists>e. (k, v, e) \<in> set ms)"
proof (induction ms arbitrary: m)
  case Nil
  then show ?case by simp
next
  case (Cons a ms)
  obtain k' v' e' where a: "a = (k', v', e')" by (cases a)
  from Cons.prems a have "foldl (\<lambda>m (k, v, e). set_property m k v) (set_property m k' v') ms k = Some v"
    by simp
  from Cons.IH [OF this] a show ?case
    by (auto simp add: set_property_def split: if_splits)
qed

lemma foldl_set_property_last:
  "k \<noteq> ''__proto__'' \<Longrightarrow>
     foldl (\<lambda>m (k, v, e). set_property m k v) m ms k
       = (case map_of (rev (map (\<lambda>(k, v, e). (k, v)) ms)) k of
            None \<Rightarrow> m k
          | Some v \<Rightarrow> Some v)"
proof (induction ms arbitrary: m)
  case Nil
  then show ?case by simp
next
  case (Cons a ms)
  obtain k' v' e' where a: "a = (k', v', e')" by (cases a)
  let ?r = "map_of (rev (map (\<lambda>(k, v, e). (k, v)) ms)) k"
  have l: "foldl (\<lambda>m (k, v, e). set_property m k v) m (a # ms) k
      = (case ?r of None \<Rightarrow> set_property m k' v' k | Some v \<Rightarrow> Some v)"
    using Cons.IH [OF Cons.prems, of "set_property m k' v'"] by (simp add: a)
  have r: "map_of (rev (map (\<lambda>(k, v, e). (k, v)) (a # ms))) k
      = (case ?r of None \<Rightarrow> (if k = k' then Some v' else None) | Some v \<Rightarrow> Some v)"
    by (simp add: a map_add_def split: option.splits)
  show ?case
    unfolding l r using Cons.prems
    by (cases ?r) (simp_all add: set_property_def)
qed

text \<open>
  C5, as the code has it. The result is built from the matches in scan order, each
  assignment replacing an earlier one of the same key. Each match is a text
  \<^verbatim>\<open>x-key=value\<close> of the input whose key is a run of word characters and whose
  value is the shortest that is followed by the end of the input or by a comma,
  \<^verbatim>\<open>x-\<close> and one word character; an equals sign after the word is not looked
  for. So every entry of the result is such a field, and for every key but
  \<^verbatim>\<open>__proto__\<close> the entry is the last match of that key.
\<close>

theorem parsePayProCustomFields_fields:
  "parsePayProCustomFields s
     = Some (foldl (\<lambda>m (k, v, e). set_property m k v) Map.empty (matches s 0))
   \<and> (\<forall>(k, v, e) \<in> set (matches s 0).
        field_ends_at lookahead s k v e \<and> \<not> list_ex line_terminator v)
   \<and> (\<forall>m k v. parsePayProCustomFields s = Some m \<and> m k = Some v
        \<longrightarrow> field_entry lookahead s k v \<and> \<not> list_ex line_terminator v)
   \<and> (\<forall>m k. parsePayProCustomFields s = Some m \<and> k \<noteq> ''__proto__''
        \<longrightarrow> m k = map_of (rev (map (\<lambda>(k, v, e). (k, v)) (matches s 0))) k)"
proof -
  have p: "parsePayProCustomFields s
     = Some (foldl (\<lambda>m (k, v, e). set_property m k v) Map.empty (matches s 0))"
    by (simp add: parsePayProCustomFields_def parse_loop_matches)
  have f: "\<forall>(k, v, e) \<in> set (matches s 0).
        field_ends_at lookahead s k v e \<and> \<not> list_ex line_terminator v"
    using matches_fields by blast
  have en: "field_entry lookahead s k v \<and> \<not> list_ex line_terminator v"
    if "parsePayProCustomFields s = Some m" "m k = Some v" for m k v
  proof -
    from that p have "foldl (\<lambda>m (k, v, e). set_property m k v) Map.empty (matches s 0) k = Some v"
      by simp
    from foldl_set_property_Some [OF this] obtain e where "(k, v, e) \<in> set (matches s 0)"
      by auto
    from matches_fields [OF this] show ?thesis
      by (auto intro: field_entryI)
  qed
  have ov: "m k = map_of (rev (map (\<lambda>(k, v, e). (k, v)) (matches s 0))) k"
    if "parsePayProCustomFields s = Some m" "k \<noteq> ''__proto__''" for m k
    using that p foldl_set_property_last [of k Map.empty "matches s 0"]
    by (auto split: option.splits)
  from p f en ov show ?thesis by blast
qed

theorem parsePayProCustomFields_fields_witness:
  "matches ''x-a=1,x-b=2,x-a=3'' 0 = [(''a'', ''1'', 5), (''b'', ''2'', 11), (''a'', ''3'', 17)]
   \<and> (\<exists>m. parsePayProCustomFields ''x-a=1,x-b=2,x-a=3'' = Some m
          \<and> m ''a'' = Some ''3'' \<and> m ''b'' = Some ''2'')
   \<and> field_entry lookahead ''x-a=1,x-b=2,x-a=3'' ''a'' ''3''
   \<and> field_ends_at lookahead ''x-a=1,x-b=2,x-a=3'' ''a'' ''1'' 5"
proof -
  let ?s = "''x-a=1,x-b=2,x-a=3''"
  have m: "matches ?s 0 = [(''a'', ''1'', 5), (''b'', ''2'', 11), (''a'', ''3'', 17)]"
    by (simp add: matches.simps regex_exec_def match_at_def lookahead_def word_char_def
        line_terminator_def)
  note T = parsePayProCustomFields_fields [of ?s]
  from T have p: "parsePayProCustomFields ?s
      = Some (foldl (\<lambda>m (k, v, e). set_property m k v) Map.empty (matches ?s 0))"
    by (rule conjunct1)
  from T have f: "\<forall>(k, v, e) \<in> set (matches ?s 0).
        field_ends_at lookahead ?s k v e \<and> \<not> list_ex line_terminator v"
    by (rule conjunct2 [THEN conjunct1])
  from T have en: "\<forall>m k v. parsePayProCustomFields ?s = Some m \<and> m k = Some v
        \<longrightarrow> field_entry lookahead ?s k v \<and> \<not> list_ex line_terminator v"
    by (rule conjunct2 [THEN conjunct2, THEN conjunct1])
  define r where "r = foldl (\<lambda>m (k, v, e). set_property m k v) Map.empty (matches ?s 0)"
  have ra: "r ''a'' = Some ''3''" and rb: "r ''b'' = Some ''2''"
    unfolding r_def m by (simp_all add: set_property_def)
  from p have pr: "parsePayProCustomFields ?s = Some r"
    by (simp only: r_def)
  from en pr ra have "field_entry lookahead ?s ''a'' ''3''"
    by blast
  moreover from f have "field_ends_at lookahead ?s ''a'' ''1'' 5"
    unfolding m by simp
  moreover from pr ra rb have "\<exists>m. parsePayProCustomFields ?s = Some m
          \<and> m ''a'' = Some ''3'' \<and> m ''b'' = Some ''2''"
    by blast
  ultimately show ?thesis using m by blast
qed

text \<open>
  C5 as the specification words it, with the marker \<^verbatim>\<open>,x-<word>=\<close>, does not hold:
  on \<^verbatim>\<open>x-a=1,x-b\<close> the code returns the value \<^verbatim>\<open>1\<close> for \<^verbatim>\<open>a\<close>, which stops before a
  \<^verbatim>\<open>,x-b\<close> that no equals sign follows and does not run to the end of the input;
  the value the specification describes is \<^verbatim>\<open>1,x-b\<close>.
\<close>

theorem parsePayProCustomFields_spec_marker_counterexample:
  "parsePayProCustomFields ''x-a=1,x-b'' = Some [''a'' \<mapsto> ''1'']
   \<and> \<not> field_entry spec_lookahead ''x-a=1,x-b'' ''a'' ''1''
   \<and> field_entry spec_lookahead ''x-a=1,x-b'' ''a'' ''1,x-b''"
proof -
  have "parsePayProCustomFields ''x-a=1,x-b'' = Some [''a'' \<mapsto> ''1'']"
    by (simp add: parsePayProCustomFields_def parse_loop.simps regex_exec_def match_at_def
        lookahead_def word_char_def line_terminator_def set_property_def)
  moreover have "\<not> field_entry spec_lookahead ''x-a=1,x-b'' ''a'' ''1''"
    by code_simp
  moreover have "field_entry spec_lookahead ''x-a=1,x-b'' ''a'' ''1,x-b''"
    by code_simp
  ultimately show ?thesis by blast
qed

text \<open>
  C6. \<open>parsePayProCustomFields\<close> returns a mapping for every input: the loop ends,
  and nothing in it raises. Without a match the mapping is empty, and the three
  inputs of the specification give the mappings it states.
\<close>

theorem parsePayProCustomFields_total:
  "(\<exists>m. parsePayProCustomFields s = Some m)
   \<and> (regex_exec s 0 = None \<longrightarrow> parsePayProCustomFields s = Some Map.empty)
   \<and> parsePayProCustomFields ''x-a=1,x-b=2'' = Some [''a'' \<mapsto> ''1'', ''b'' \<mapsto> ''2'']
   \<and> parsePayProCustomFields ''x-passthrough={\"id\":1},x-source=web''
       = Some [''passthrough'' \<mapsto> ''{\"id\":1}'', ''source'' \<mapsto> ''web'']
   \<and> parsePayProCustomFields [] = Some Map.empty"
proof -
  have "\<exists>m. parsePayProCustomFields s = Some m"
    by (simp add: parsePayProCustomFields_def parse_loop_matches)
  moreover have "regex_exec s 0 = None \<longrightarrow> parsePayProCustomFields s = Some Map.empty"
    by (simp add: parsePayProCustomFields_def parse_loop.simps)
  moreover have "parsePayProCustomFields ''x-a=1,x-b=2''
      = Some [''a'' \<mapsto> ''1'', ''b'' \<mapsto> ''2'']"
    by (simp add: parsePayProCustomFields_def parse_loop.simps regex_exec_def match_at_def
        lookahead_def word_char_def line_terminator_def set_property_def)
  moreover have "parsePayProCustomFields ''x-passthrough={\"id\":1},x-source=web''
       = Some [''passthrough'' \<mapsto> ''{\"id\":1}'', ''source'' \<mapsto> ''web'']"
    by (simp add: parsePayProCustomFields_def parse_loop.simps regex_exec_def match_at_def
        lookahead_def word_char_def line_terminator_def set_property_def)
  moreover have "parsePayProCustomFields [] = Some Map.empty"
    by (simp add: parsePayProCustomFields_def parse_loop.simps regex_exec_def match_at_def)
  ultimately show ?thesis by blast
qed

theorem parsePayProCustomFields_total_witness:
  "regex_exec ''no fields, x- here'' 0 = None
   \<and> parsePayProCustomFields ''no fields, x- here'' = Some Map.empty"
proof -
  have n: "regex_exec ''no fields, x- here'' 0 = None"
    by (simp add: regex_exec_def match_at_def word_char_def)
  from parsePayProCustomFields_total [of "''no fields, x- here''"] n show ?thesis
    by blast
qed

section \<open>Checkout links\<close>

lemma map_of_filter_other:
  "m \<noteq> n \<Longrightarrow> map_of (filter (\<lambda>p. fst p \<noteq> n) ps) m = map_of ps m"
  by (induction ps) auto

lemma map_of_set_first_same:
  "n \<in> fst ` set ps \<Longrightarrow> map_of (set_first ps n v) n = Some v"
  by (induction ps n v rule: set_first.induct) auto

lemma map_of_set_first_other:
  "m \<noteq> n \<Longrightarrow> map_of (set_first ps n v) m = map_of ps m"
  by (induction ps n v rule: set_first.induct) (auto simp add: map_of_filter_other)

lemma map_of_params_set_same: "map_of (params_set ps n v) n = Some v"
proof (cases "n \<in> fst ` set ps")
  case True
  then show ?thesis by (simp add: params_set_def map_of_set_first_same)
next
  case False
  then have "map_of ps n = None" by (simp add: map_of_eq_None_iff)
  with False show ?thesis by (simp add: params_set_def map_add_def)
qed

lemma map_of_params_set_other:
  "m \<noteq> n \<Longrightarrow> map_of (params_set ps n v) m = map_of ps m"
  by (cases "n \<in> fst ` set ps")
    (auto simp add: params_set_def map_of_set_first_other map_add_def split: option.splits)

lemma map_of_withProduct_data:
  "map_of (withProduct rt options ps encrypted) ''products[1][data]'' = Some (encode64 encrypted)"
  by (simp add: withProduct_def Let_def map_of_params_set_same)

lemma map_of_withProduct_id:
  "map_of (withProduct rt options ps encrypted) ''products[1][id]''
     = Some (show_int (SKU_TO_PAYPRO_ID (sku options)))"
  by (simp add: withProduct_def Let_def map_of_params_set_same map_of_params_set_other
      split: option.splits)

lemma urlencode_simps:
  "urlencode [] = []"
  "urlencode (x # xs) = urlencode_char x @ urlencode xs"
  "urlencode (a @ b) = urlencode a @ urlencode b"
  by (simp_all add: urlencode_def)

lemma urlencode_currency: "c \<in> set PAYPRO_CURRENCIES \<Longrightarrow> urlencode c = c"
  unfolding PAYPRO_CURRENCIES_def
  by (auto simp add: urlencode_def urlencode_char_def word_char_def)

lemma price_name_urlencoded:
  "c \<in> set PAYPRO_CURRENCIES \<Longrightarrow>
     urlencode (''price['' @ c @ ''][Amount]'') = ''price%5B'' @ c @ ''%5D%5BAmount%5D''"
  by (simp add: urlencode_simps urlencode_currency urlencode_char_def word_char_def utf8_def
      percent_byte_def)

lemma productParams_supported:
  assumes "currency options \<in> set PAYPRO_CURRENCIES"
  shows "productParams rt options
     = ([], Inr [(''price['' @ currency options @ ''][Amount]'',
                  number_toString rt (price options))])"
  using assms by (simp add: productParams_def params_set_def)

lemma productParams_sku: "productParams rt (options\<lparr>sku := k\<rparr>) = productParams rt options"
  by (simp add: productParams_def split: sum.splits option.splits)

lemma visibleParams_sku: "visibleParams (options\<lparr>sku := k\<rparr>) = visibleParams options"
  by (simp add: visibleParams_def)

lemma productParams_price:
  "currency options \<notin> set PAYPRO_CURRENCIES \<Longrightarrow>
     productParams rt (options\<lparr>price := p\<rparr>) = productParams rt options"
  by (simp add: productParams_def split: sum.splits option.splits)

text \<open>
  What the code does for a currency that is not in the list: one report, one
  request for the rates of USD, then an error when the request fails or gives no
  truthy rate for the currency, and otherwise the product parameters
  \<^verbatim>\<open>price[USD][Amount]\<close> with the rate itself as the amount.
\<close>

lemma productParams_unsupported:
  assumes "currency options \<notin> set PAYPRO_CURRENCIES"
  shows "fst (productParams rt options)
           = [ReportError (Inr (''Opening unsupported '' @ currency options @ '' PayPro checkout'')),
              GetLatestRates ''USD'']"
    and "getLatestRates rt ''USD'' = Inl e \<Longrightarrow> snd (productParams rt options) = Inl e"
    and "getLatestRates rt ''USD'' = Inr rates \<Longrightarrow> rates (currency options) = None \<Longrightarrow>
           snd (productParams rt options) = Inl (Error (no_rate_message (currency options)))"
    and "getLatestRates rt ''USD'' = Inr rates \<Longrightarrow> rates (currency options) = Some usdRate \<Longrightarrow>
           number_truthy rt usdRate \<Longrightarrow>
           snd (productParams rt options)
             = Inr [(''price[USD][Amount]'', number_toString rt usdRate)]"
  using assms by (simp_all add: productParams_def params_set_def)

text \<open>
  C4, as the code has it. For a currency of the list, \<open>createCheckout\<close> gives the
  cipher one plaintext, the serialised product parameters, and returns the checkout
  URL whose query is the serialised parameters, \<^verbatim>\<open>products[1][data]\<close> among them with
  the base64 text of the ciphertext. The plaintext is the URL-encoded form of
  \<^verbatim>\<open>price[<currency>][Amount]=<price>\<close>: the brackets are \<^verbatim>\<open>%5B\<close> and \<^verbatim>\<open>%5D\<close> in it.
  The currency and the price are the request's. No condition on the SKU is needed.
\<close>

theorem createCheckout_supported_currency:
  assumes "currency options \<in> set PAYPRO_CURRENCIES"
  shows "\<exists>plaintext ps.
           plaintext = params_toString
             [(''price['' @ currency options @ ''][Amount]'', number_toString rt (price options))]
         \<and> plaintext = ''price%5B'' @ currency options @ ''%5D%5BAmount%5D=''
                         @ urlencode (number_toString rt (price options))
         \<and> createCheckout rt cfg options
             = ([AesEncrypt plaintext],
                Inr (PAYPRO_API_BASE_URL cfg @ ''/checkout?'' @ params_toString ps))
         \<and> map_of ps ''products[1][data]''
             = Some (encode64 (aes_cbc_encrypt
                       (PAYPRO_PARAM_KEY cfg) (PAYPRO_PARAM_IV cfg) plaintext))"
proof -
  let ?pt = "params_toString
      [(''price['' @ currency options @ ''][Amount]'', number_toString rt (price options))]"
  let ?enc = "aes_cbc_encrypt
      (PAYPRO_PARAM_KEY cfg) (PAYPRO_PARAM_IV cfg) ?pt"
  let ?ps = "withProduct rt options (visibleParams options) ?enc"
  have "?pt = urlencode (''price['' @ currency options @ ''][Amount]'') @ ''=''
                @ urlencode (number_toString rt (price options))"
    by simp
  then have a: "?pt = ''price%5B'' @ currency options @ ''%5D%5BAmount%5D=''
                         @ urlencode (number_toString rt (price options))"
    by (simp only: price_name_urlencoded [OF assms]) simp
  have b: "createCheckout rt cfg options
      = ([AesEncrypt ?pt], Inr (PAYPRO_API_BASE_URL cfg @ ''/checkout?'' @ params_toString ?ps))"
    by (simp add: createCheckout_def productParams_supported [OF assms] Let_def)
  have c: "map_of ?ps ''products[1][data]'' = Some (encode64 ?enc)"
    by (rule map_of_withProduct_data)
  from a b c show ?thesis by blast
qed

theorem createCheckout_supported_currency_witness:
  "''EUR'' \<in> set PAYPRO_CURRENCIES
   \<and> (\<exists>ps. createCheckout example_runtime example_config eur_options
              = ([AesEncrypt ''price%5BEUR%5D%5BAmount%5D=14''],
                 Inr (''https://store.payproglobal.com/checkout?'' @ params_toString ps))
          \<and> map_of ps ''products[1][data]''
              = Some (encode64 (aes_cbc_encrypt ''0123456789abcdef''
                        ''fedcba9876543210'' ''price%5BEUR%5D%5BAmount%5D=14'')))"
proof -
  have c: "currency eur_options \<in> set PAYPRO_CURRENCIES"
    by (simp add: eur_options_def PAYPRO_CURRENCIES_def)
  have u: "urlencode (number_toString example_runtime (price eur_options)) = ''14''"
    by (simp add: eur_options_def example_runtime_def show_int_def show_nat.simps urlencode_simps
        urlencode_char_def word_char_def)
  from createCheckout_supported_currency [OF c, of example_runtime example_config]
  obtain plaintext ps
    where p: "plaintext = ''price%5B'' @ currency eur_options @ ''%5D%5BAmount%5D=''
                         @ urlencode (number_toString example_runtime (price eur_options))"
      and r: "createCheckout example_runtime example_config eur_options
             = ([AesEncrypt plaintext],
                Inr (PAYPRO_API_BASE_URL example_config @ ''/checkout?'' @ params_toString ps))"
      and d: "map_of ps ''products[1][data]''
             = Some (encode64 (aes_cbc_encrypt
                       (PAYPRO_PARAM_KEY example_config) (PAYPRO_PARAM_IV example_config)
                       plaintext))"
    by blast
  from p u have p': "plaintext = ''price%5BEUR%5D%5BAmount%5D=14''"
    by (simp add: eur_options_def)
  from r d have "createCheckout example_runtime example_config eur_options
              = ([AesEncrypt ''price%5BEUR%5D%5BAmount%5D=14''],
                 Inr (''https://store.payproglobal.com/checkout?'' @ params_toString ps))
          \<and> map_of ps ''products[1][data]''
              = Some (encode64 (aes_cbc_encrypt ''0123456789abcdef''
                        ''fedcba9876543210'' ''price%5BEUR%5D%5BAmount%5D=14''))"
    unfolding p' by (simp add: example_config_def example_runtime_def)
  with c show ?thesis
    by (auto simp add: eur_options_def)
qed

text \<open>
  C4 as the specification words it does not hold: for a price of 14 EUR the
  plaintext that is encrypted is \<^verbatim>\<open>price%5BEUR%5D%5BAmount%5D=14\<close>, and the text
  \<^verbatim>\<open>price[EUR][Amount]=14\<close> does not occur in it.
\<close>

theorem createCheckout_plaintext_counterexample:
  "createCheckout example_runtime example_config eur_options
     = ([AesEncrypt ''price%5BEUR%5D%5BAmount%5D=14''],
        Inr (''https://store.payproglobal.com/checkout?currency=EUR''
               @ ''&billing-email=user%40example.com&x-source=web''
               @ ''&products%5B1%5D%5Bid%5D=79920&products%5B1%5D%5Bdata%5D=''
               @ urlencode (encode64 (aes_cbc_encrypt ''0123456789abcdef''
                   ''fedcba9876543210'' ''price%5BEUR%5D%5BAmount%5D=14''))))
   \<and> \<not> sublist ''price[EUR][Amount]=14'' ''price%5BEUR%5D%5BAmount%5D=14''"
proof -
  have "createCheckout example_runtime example_config eur_options
     = ([AesEncrypt ''price%5BEUR%5D%5BAmount%5D=14''],
        Inr (''https://store.payproglobal.com/checkout?currency=EUR''
               @ ''&billing-email=user%40example.com&x-source=web''
               @ ''&products%5B1%5D%5Bid%5D=79920&products%5B1%5D%5Bdata%5D=''
               @ urlencode (encode64 (aes_cbc_encrypt ''0123456789abcdef''
                   ''fedcba9876543210'' ''price%5BEUR%5D%5BAmount%5D=14''))))"
    by (simp add: createCheckout_def productParams_def visibleParams_def withProduct_def
        set_if_truthy_def params_set_def eur_options_def example_runtime_def example_config_def
        PAYPRO_CURRENCIES_def show_int_def show_nat.simps urlencode_simps urlencode_char_def word_char_def
        utf8_def percent_byte_def Let_def)
  moreover have "\<not> sublist ''price[EUR][Amount]=14'' ''price%5BEUR%5D%5BAmount%5D=14''"
    by code_simp
  ultimately show ?thesis by blast
qed

text \<open>
  C3 as the specification words it does not hold: for the SKU \<open>ProPerpetual\<close>,
  whose product id is -1, \<open>createCheckout\<close> raises nothing; it encrypts the product
  parameters and returns a URL with \<^verbatim>\<open>products[1][id]=-1\<close>.
\<close>

theorem createCheckout_unsupported_sku_counterexample:
  "createCheckout example_runtime example_config perpetual_options
     = ([AesEncrypt ''price%5BUSD%5D%5BAmount%5D=120''],
        Inr (''https://store.payproglobal.com/checkout?currency=USD''
               @ ''&billing-email=user%40example.com&x-source=web''
               @ ''&products%5B1%5D%5Bid%5D=-1&products%5B1%5D%5Bdata%5D=''
               @ urlencode (encode64 (aes_cbc_encrypt ''0123456789abcdef''
                   ''fedcba9876543210'' ''price%5BUSD%5D%5BAmount%5D=120''))))"
  by (simp add: createCheckout_def productParams_def visibleParams_def withProduct_def
      set_if_truthy_def params_set_def perpetual_options_def eur_options_def
      example_runtime_def example_config_def PAYPRO_CURRENCIES_def show_int_def show_nat.simps
      urlencode_simps urlencode_char_def word_char_def utf8_def percent_byte_def Let_def)

text \<open>
  C3, as the code has it. \<open>createCheckout\<close> does not look at the SKU before the
  last lines: a request with the unsupported SKU makes the same calls, and fails
  with the same error, as the same request with any other SKU; when it does not
  fail, the plaintext has been given to the cipher and the URL carries
  \<^verbatim>\<open>products[1][id]\<close> with the value -1. For a currency of the list it does not fail.
\<close>

theorem createCheckout_no_sku_check:
  "fst (createCheckout rt cfg (options\<lparr>sku := ProPerpetual\<rparr>))
     = fst (createCheckout rt cfg options)
   \<and> (\<forall>e. snd (createCheckout rt cfg (options\<lparr>sku := ProPerpetual\<rparr>)) = Inl e
          \<longleftrightarrow> snd (createCheckout rt cfg options) = Inl e)
   \<and> (\<forall>url. snd (createCheckout rt cfg (options\<lparr>sku := ProPerpetual\<rparr>)) = Inr url
          \<longrightarrow> (\<exists>plaintext ps.
                 last (fst (createCheckout rt cfg (options\<lparr>sku := ProPerpetual\<rparr>)))
                   = AesEncrypt plaintext
                 \<and> url = PAYPRO_API_BASE_URL cfg @ ''/checkout?'' @ params_toString ps
                 \<and> map_of ps ''products[1][id]'' = Some ''-1''))
   \<and> (currency options \<in> set PAYPRO_CURRENCIES
          \<longrightarrow> (\<exists>url. snd (createCheckout rt cfg (options\<lparr>sku := ProPerpetual\<rparr>)) = Inr url))"
proof -
  let ?o = "options\<lparr>sku := ProPerpetual\<rparr>"
  obtain effects r where p: "productParams rt options = (effects, r)"
    by (cases "productParams rt options")
  have p': "productParams rt ?o = (effects, r)"
    by (simp add: productParams_sku p)
  have id: "show_int (SKU_TO_PAYPRO_ID (sku ?o)) = ''-1''"
    by (simp add: show_int_def show_nat.simps)
  show ?thesis
  proof (cases r)
    case (Inl e)
    with p p' show ?thesis
      by (auto simp add: createCheckout_def productParams_supported)
  next
    case (Inr product)
    let ?enc = "aes_cbc_encrypt (PAYPRO_PARAM_KEY cfg)
        (PAYPRO_PARAM_IV cfg) (params_toString product)"
    have a: "createCheckout rt cfg ?o
        = (effects @ [AesEncrypt (params_toString product)],
           Inr (PAYPRO_API_BASE_URL cfg @ ''/checkout?''
                  @ params_toString (withProduct rt ?o (visibleParams ?o) ?enc)))"
      by (simp add: createCheckout_def p' Inr Let_def)
    have b: "createCheckout rt cfg options
        = (effects @ [AesEncrypt (params_toString product)],
           Inr (PAYPRO_API_BASE_URL cfg @ ''/checkout?''
                  @ params_toString (withProduct rt options (visibleParams options) ?enc)))"
      by (simp add: createCheckout_def p Inr Let_def)
    have c: "map_of (withProduct rt ?o (visibleParams ?o) ?enc) ''products[1][id]'' = Some ''-1''"
      by (simp only: map_of_withProduct_id id)
    from a b c show ?thesis
      by auto
  qed
qed

theorem createCheckout_no_sku_check_witness:
  "fst (createCheckout example_runtime example_config perpetual_options)
     = fst (createCheckout example_runtime example_config (perpetual_options\<lparr>sku := ProMonthly\<rparr>))
   \<and> (\<exists>plaintext ps.
         createCheckout example_runtime example_config perpetual_options
           = ([AesEncrypt plaintext],
              Inr (''https://store.payproglobal.com/checkout?'' @ params_toString ps))
         \<and> map_of ps ''products[1][id]'' = Some ''-1'')"
proof -
  let ?o = "perpetual_options\<lparr>sku := ProMonthly\<rparr>"
  have o: "?o\<lparr>sku := ProPerpetual\<rparr> = perpetual_options"
    by (simp add: perpetual_options_def)
  have c: "currency ?o \<in> set PAYPRO_CURRENCIES"
    by (simp add: perpetual_options_def eur_options_def PAYPRO_CURRENCIES_def)
  have f: "fst (createCheckout example_runtime example_config perpetual_options)
      = [AesEncrypt ''price%5BUSD%5D%5BAmount%5D=120'']"
    by (simp add: createCheckout_def productParams_def perpetual_options_def eur_options_def
        example_runtime_def PAYPRO_CURRENCIES_def params_set_def show_int_def show_nat.simps urlencode_simps
        urlencode_char_def word_char_def utf8_def percent_byte_def Let_def)
  note T = createCheckout_no_sku_check [of example_runtime example_config ?o, unfolded o]
  from T have 1: "fst (createCheckout example_runtime example_config perpetual_options)
     = fst (createCheckout example_runtime example_config ?o)"
    by (rule conjunct1)
  from T c obtain url
    where u: "snd (createCheckout example_runtime example_config perpetual_options) = Inr url"
    by blast
  with T obtain plaintext ps
    where "url = PAYPRO_API_BASE_URL example_config @ ''/checkout?'' @ params_toString ps"
      and "map_of ps ''products[1][id]'' = Some ''-1''"
    by blast
  with u f have "createCheckout example_runtime example_config perpetual_options
           = ([AesEncrypt ''price%5BUSD%5D%5BAmount%5D=120''],
              Inr (''https://store.payproglobal.com/checkout?'' @ params_toString ps))
         \<and> map_of ps ''products[1][id]'' = Some ''-1''"
    by (simp add: prod_eq_iff example_config_def)
  with 1 show ?thesis by blast
qed

text \<open>
  C2. The code at a request of 250000 VND, with 25000 as the rate of VND for one
  dollar: it reports once, asks for the rates of USD, and encrypts
  \<^verbatim>\<open>price[USD][Amount]=25000\<close>, the rate, where the price in dollars is 10. The
  request's price does not reach the result: any other price gives the same.
\<close>

theorem createCheckout_unsupported_currency_sends_rate:
  "createCheckout example_runtime example_config vnd_options
     = ([ReportError (Inr ''Opening unsupported VND PayPro checkout''),
         GetLatestRates ''USD'',
         AesEncrypt ''price%5BUSD%5D%5BAmount%5D=25000''],
        Inr (''https://store.payproglobal.com/checkout?currency=VND''
               @ ''&billing-email=user%40example.com&x-source=web''
               @ ''&products%5B1%5D%5Bid%5D=79920&products%5B1%5D%5Bdata%5D=''
               @ urlencode (encode64 (aes_cbc_encrypt ''0123456789abcdef''
                   ''fedcba9876543210'' ''price%5BUSD%5D%5BAmount%5D=25000''))))
   \<and> createCheckout example_runtime example_config (vnd_options\<lparr>price := 1\<rparr>)
       = createCheckout example_runtime example_config vnd_options"
proof -
  have "createCheckout example_runtime example_config vnd_options
     = ([ReportError (Inr ''Opening unsupported VND PayPro checkout''),
         GetLatestRates ''USD'',
         AesEncrypt ''price%5BUSD%5D%5BAmount%5D=25000''],
        Inr (''https://store.payproglobal.com/checkout?currency=VND''
               @ ''&billing-email=user%40example.com&x-source=web''
               @ ''&products%5B1%5D%5Bid%5D=79920&products%5B1%5D%5Bdata%5D=''
               @ urlencode (encode64 (aes_cbc_encrypt ''0123456789abcdef''
                   ''fedcba9876543210'' ''price%5BUSD%5D%5BAmount%5D=25000''))))"
    by (simp add: createCheckout_def productParams_def visibleParams_def withProduct_def
        set_if_truthy_def params_set_def vnd_options_def eur_options_def
        example_runtime_def example_config_def PAYPRO_CURRENCIES_def show_int_def show_nat.simps
        urlencode_simps urlencode_char_def word_char_def utf8_def percent_byte_def Let_def)
  moreover have "currency vnd_options \<notin> set PAYPRO_CURRENCIES"
    by (simp add: vnd_options_def eur_options_def PAYPRO_CURRENCIES_def)
  then have "createCheckout example_runtime example_config (vnd_options\<lparr>price := 1\<rparr>)
       = createCheckout example_runtime example_config vnd_options"
    by (simp add: createCheckout_def productParams_price visibleParams_def withProduct_def)
  ultimately show ?thesis by blast
qed

section \<open>The AES block cipher is undone by its inverse\<close>

lemma sbox_table_inverse:
  "list_all (\<lambda>n. inv_sbox_table ! unat (sbox_table ! n) = word_of_nat n) [0..<256]"
  by code_simp

lemma inv_sub_byte_sub_byte: "inv_sub_byte (sub_byte b) = b"
proof -
  have "unat b < 256"
    using unsigned_less [of b, where ?'a = nat] by simp
  with sbox_table_inverse have "inv_sbox_table ! unat (sbox_table ! unat b) = word_of_nat (unat b)"
    by (simp add: list_all_iff)
  then show ?thesis
    by (simp add: inv_sub_byte_def sub_byte_def)
qed

lemma map_inv_sub_byte: "map (inv_sub_byte \<circ> sub_byte) st = st"
  by (induction st) (simp_all add: inv_sub_byte_sub_byte)

lemma length_shift_rows: "length (shift_rows st) = 16"
  by (simp add: shift_rows_def)

lemma upt_16: "[0..<16] = [0, 1, 2, 3, 4, 5, 6, 7, 8, 9, 10, 11, 12, 13, 14, 15]"
  by code_simp

lemma inv_shift_rows_shift_rows:
  assumes "length st = 16"
  shows "inv_shift_rows (shift_rows st) = st"
proof -
  have "inv_shift_rows (shift_rows st) = map (\<lambda>i. st ! i) [0..<16]"
    unfolding upt_16 by (simp add: shift_rows_def inv_shift_rows_def)
  also have "\<dots> = st"
    using map_nth [of st] assms by simp
  finally show ?thesis .
qed

lemma xtime_xor: "xtime (a XOR b) = xtime a XOR xtime b"
proof -
  have p: "push_bit 1 (a XOR b) = push_bit 1 a XOR push_bit 1 b"
    by (rule push_bit_xor)
  have b: "bit (a XOR b) 7 \<longleftrightarrow> bit a 7 \<noteq> bit b 7"
    by (simp add: bit_xor_iff)
  show ?thesis
    unfolding xtime_def p b
    by (cases "bit a 7"; cases "bit b 7") (simp_all add: ac_simps)
qed

lemma xor_cancel: "a XOR (a XOR b) = (b :: byte)"
  by (simp flip: xor.assoc)

lemma mix_column_inverse:
  "mul14 (xtime a XOR mul3 b XOR c XOR d) XOR mul11 (a XOR xtime b XOR mul3 c XOR d)
     XOR mul13 (a XOR b XOR xtime c XOR mul3 d) XOR mul9 (mul3 a XOR b XOR c XOR xtime d) = a"
  "mul9 (xtime a XOR mul3 b XOR c XOR d) XOR mul14 (a XOR xtime b XOR mul3 c XOR d)
     XOR mul11 (a XOR b XOR xtime c XOR mul3 d) XOR mul13 (mul3 a XOR b XOR c XOR xtime d) = b"
  "mul13 (xtime a XOR mul3 b XOR c XOR d) XOR mul9 (a XOR xtime b XOR mul3 c XOR d)
     XOR mul14 (a XOR b XOR xtime c XOR mul3 d) XOR mul11 (mul3 a XOR b XOR c XOR xtime d) = c"
  "mul11 (xtime a XOR mul3 b XOR c XOR d) XOR mul13 (a XOR xtime b XOR mul3 c XOR d)
     XOR mul9 (a XOR b XOR xtime c XOR mul3 d) XOR mul14 (mul3 a XOR b XOR c XOR xtime d) = d"
  by (simp_all add: mul3_def mul9_def mul11_def mul13_def mul14_def xtime_xor xor_cancel
      ac_simps)

lemma length_mix_columns: "length st mod 4 = 0 \<Longrightarrow> length (mix_columns st) = length st"
  by (induction st rule: mix_columns.induct) simp_all

lemma inv_mix_columns_mix_columns:
  "length st mod 4 = 0 \<Longrightarrow> inv_mix_columns (mix_columns st) = st"
  by (induction st rule: mix_columns.induct) (simp_all add: mix_column_inverse)

lemma length_xor_words: "length (xor_words xs ys) = min (length xs) (length ys)"
  by (simp add: xor_words_def)

lemma xor_words_twice: "length xs \<le> length ys \<Longrightarrow> xor_words (xor_words xs ys) ys = xs"
proof (induction xs arbitrary: ys)
  case Nil
  then show ?case by (simp add: xor_words_def)
next
  case (Cons x xs)
  then obtain y ys' where ys: "ys = y # ys'" by (cases ys) auto
  with Cons.prems have "length xs \<le> length ys'" by simp
  from Cons.IH [OF this] show ?case
    by (simp add: ys xor_words_def xor.assoc)
qed

lemma add_round_key_twice:
  "length st \<le> length k \<Longrightarrow> add_round_key k (add_round_key k st) = st"
  by (simp add: add_round_key_def xor_words_twice)

lemma length_add_round_key:
  "length k = 16 \<Longrightarrow> length st = 16 \<Longrightarrow> length (add_round_key k st) = 16"
  by (simp add: add_round_key_def length_xor_words)

lemma rounds_inverse:
  "\<forall>k \<in> set ks. length k = 16 \<Longrightarrow> length st = 16 \<Longrightarrow>
     length (rounds ks st) = 16 \<and> inv_rounds ks (rounds ks st) = st"
proof (induction ks st rule: rounds.induct)
  case (1 st)
  then show ?case by simp
next
  case (2 k st)
  then show ?case
    by (simp add: length_add_round_key length_shift_rows add_round_key_twice
        inv_shift_rows_shift_rows map_inv_sub_byte)
next
  case (3 k k' ks st)
  let ?st = "add_round_key k (mix_columns (shift_rows (map sub_byte st)))"
  from "3.prems" have k: "length k = 16" and ks: "\<forall>k \<in> set (k' # ks). length k = 16"
    by simp_all
  have m: "length (mix_columns (shift_rows (map sub_byte st))) = 16"
    by (simp add: length_mix_columns length_shift_rows)
  with k have l: "length ?st = 16"
    by (simp add: length_add_round_key)
  from "3.IH" [OF ks l] have ih: "length (rounds (k' # ks) ?st) = 16"
    "inv_rounds (k' # ks) (rounds (k' # ks) ?st) = ?st"
    by simp_all
  from k m have "add_round_key k ?st = mix_columns (shift_rows (map sub_byte st))"
    by (simp add: add_round_key_twice)
  with ih "3.prems"(2) show ?case
    by (simp add: inv_mix_columns_mix_columns length_shift_rows inv_shift_rows_shift_rows
        map_inv_sub_byte)
qed

lemma cipher_inverse:
  assumes "\<forall>k \<in> set ks. length k = 16" and "length st = 16"
  shows "length (cipher ks st) = 16" and "inv_cipher ks (cipher ks st) = st"
proof -
  show "length (cipher ks st) = 16"
  proof (cases ks)
    case Nil
    with assms show ?thesis by (simp add: cipher_def)
  next
    case (Cons k ks')
    with assms have "length (add_round_key k st) = 16" "\<forall>k \<in> set ks'. length k = 16"
      by (simp_all add: length_add_round_key)
    with Cons rounds_inverse [of ks' "add_round_key k st"] show ?thesis
      by (simp add: cipher_def)
  qed
  show "inv_cipher ks (cipher ks st) = st"
  proof (cases ks)
    case Nil
    then show ?thesis by (simp add: cipher_def inv_cipher_def)
  next
    case (Cons k ks')
    with assms have l: "length (add_round_key k st) = 16" "\<forall>k \<in> set ks'. length k = 16"
      and k: "length k = 16"
      by (simp_all add: length_add_round_key)
    from rounds_inverse [OF l(2) l(1)] k assms(2) Cons show ?thesis
      by (simp add: cipher_def inv_cipher_def add_round_key_twice)
  qed
qed

lemma chunks_step: "0 < n \<Longrightarrow> xs \<noteq> [] \<Longrightarrow> chunks n xs = take n xs # chunks n (drop n xs)"
  by (subst chunks.simps) simp

lemma chunks_lengths:
  "0 < n \<Longrightarrow> length xs mod n = 0 \<Longrightarrow>
     list_all (\<lambda>c. length c = n) (chunks n xs) \<and> length (chunks n xs) = length xs div n"
proof (induction xs rule: length_induct)
  case (1 xs)
  show ?case
  proof (cases "xs = []")
    case True
    then show ?thesis by (simp add: chunks.simps)
  next
    case False
    with "1.prems" have len: "n \<le> length xs"
      by (cases "length xs < n") auto
    with "1.prems" have m: "length (drop n xs) mod n = 0"
      by (simp add: mod_eq_0_iff_dvd dvd_diff_nat)
    from len "1.prems"(1) have sh: "length (drop n xs) < length xs"
      by simp
    note c = chunks_step [OF "1.prems"(1) False]
    note ih = "1.IH" [rule_format, OF sh "1.prems"(1) m]
    from ih have ih1: "list_all (\<lambda>c. length c = n) (chunks n (drop n xs))"
      by (rule conjunct1)
    from ih have "length (chunks n (drop n xs)) = length (drop n xs) div n"
      by (rule conjunct2)
    then have ih2: "length (chunks n (drop n xs)) = (length xs - n) div n"
      by simp
    from le_div_geq [OF "1.prems"(1) len]
    have d: "length xs div n = Suc ((length xs - n) div n)" .
    from len have t: "length (take n xs) = n"
      by simp
    from ih1 t have "list_all (\<lambda>c. length c = n) (chunks n xs)"
      unfolding c by simp
    moreover from ih2 have "length (chunks n xs) = length xs div n"
      unfolding c d by simp
    ultimately show ?thesis ..
  qed
qed

lemma length_next_word:
  assumes "0 < Nk" and "ws \<noteq> []" and "list_all (\<lambda>w. length w = 4) ws"
  shows "length (next_word Nk ws) = 4"
proof -
  from assms(1,2) have "length ws - Nk < length ws"
    by simp
  then have "ws ! (length ws - Nk) \<in> set ws"
    by (rule nth_mem)
  with assms(3) have a: "length (ws ! (length ws - Nk)) = 4"
    by (simp add: list_all_iff)
  from assms(2) have "last ws \<in> set ws"
    by (rule last_in_set)
  with assms(3) have l: "length (last ws) = 4"
    by (simp add: list_all_iff)
  show ?thesis
    by (simp add: next_word_def Let_def length_xor_words rcon_def a l)
qed

lemma expand_lengths:
  "0 < Nk \<Longrightarrow> ws \<noteq> [] \<Longrightarrow> list_all (\<lambda>w. length w = 4) ws \<Longrightarrow>
     list_all (\<lambda>w. length w = 4) (expand Nk n ws) \<and> length (expand Nk n ws) = length ws + n"
proof (induction n arbitrary: ws)
  case 0
  then show ?case by simp
next
  case (Suc n)
  from length_next_word [OF Suc.prems] Suc.prems(3)
  have a: "list_all (\<lambda>w. length w = 4) (ws @ [next_word Nk ws])"
    by simp
  have b: "ws @ [next_word Nk ws] \<noteq> []"
    by simp
  from Suc.IH [OF Suc.prems(1) b a] show ?case
    by simp
qed

lemma length_concat_words:
  "list_all (\<lambda>w. length w = 4) ws \<Longrightarrow> length (concat ws) = 4 * length ws"
  by (induction ws) simp_all

lemma round_keys_lengths:
  assumes "length key \<in> {16, 24, 32}"
  shows "list_all (\<lambda>k. length k = 16) (round_keys key)"
proof -
  define Nk where "Nk = length key div 4"
  from assms have nk: "Nk = 4 \<or> Nk = 6 \<or> Nk = 8" and m: "length key mod 4 = 0"
    by (auto simp add: Nk_def)
  from nk have pos: "0 < Nk"
    by auto
  have p4: "(0::nat) < 4" and p16: "(0::nat) < 16"
    by simp_all
  note c = chunks_lengths [OF p4 m]
  from c have c1: "list_all (\<lambda>c. length c = 4) (chunks 4 key)"
    by (rule conjunct1)
  from c have c2: "length (chunks 4 key) = Nk"
    unfolding Nk_def by (rule conjunct2)
  from c2 pos have ne: "chunks 4 key \<noteq> []"
    by auto
  define ws where "ws = expand Nk (4 * (Nk + 7) - Nk) (chunks 4 key)"
  note e = expand_lengths [OF pos ne c1, of "4 * (Nk + 7) - Nk", folded ws_def]
  from e have w: "list_all (\<lambda>w. length w = 4) ws"
    by (rule conjunct1)
  from e have "length ws = length (chunks 4 key) + (4 * (Nk + 7) - Nk)"
    by (rule conjunct2)
  with c2 have "length ws = 4 * (Nk + 7)"
    by simp
  with length_concat_words [OF w] have "length (concat ws) = 16 * (Nk + 7)"
    by simp
  then have "length (concat ws) mod 16 = 0"
    by simp
  from chunks_lengths [OF p16 this] have "list_all (\<lambda>c. length c = 16) (chunks 16 (concat ws))"
    by (rule conjunct1)
  then show ?thesis
    by (simp only: round_keys_def Let_def ws_def Nk_def)
qed

lemma string_of_bytes_of: "string_of (bytes_of s) = s"
proof -
  have "char_of (unat (word_of_nat (of_char c) :: byte)) = c" for c
  proof -
    have "unat (word_of_nat (of_char c) :: byte) = of_char c mod 256"
      by (simp add: unat_of_nat)
    then show ?thesis by simp
  qed
  then show ?thesis
    by (simp add: string_of_def bytes_of_def comp_def)
qed

lemma bytes_of_string_of: "bytes_of (string_of bs) = bs"
proof -
  have "word_of_nat (of_char (char_of (unat b))) = b" for b :: byte
  proof -
    have "unat b < 256"
      using unsigned_less [of b, where ?'a = nat] by simp
    then have "(of_char (char_of (unat b)) :: nat) = unat b"
      by simp
    then show ?thesis by simp
  qed
  then show ?thesis
    by (simp add: string_of_def bytes_of_def comp_def)
qed

lemma aes_block_round_trip:
  assumes "length key \<in> {16, 24, 32}" and "length block = 16"
  shows "length (aes_encrypt_block key block) = 16"
    and "aes_decrypt_block key (aes_encrypt_block key block) = block"
proof -
  have k: "length (bytes_of key) \<in> {16, 24, 32}"
    using assms(1) by (simp add: bytes_of_def)
  have b: "length (bytes_of block) = 16"
    using assms(2) by (simp add: bytes_of_def)
  from round_keys_lengths [OF k] have "\<forall>k \<in> set (round_keys (bytes_of key)). length k = 16"
    by (simp only: list_all_iff)
  note c = cipher_inverse [OF this b]
  from c(1) show "length (aes_encrypt_block key block) = 16"
    by (simp add: aes_encrypt_block_def string_of_def)
  from c(2) show "aes_decrypt_block key (aes_encrypt_block key block) = block"
    by (simp add: aes_encrypt_block_def aes_decrypt_block_def bytes_of_string_of
        string_of_bytes_of)
qed

section \<open>Encryption round trip\<close>

lemma xor_nat_lt_256:
  fixes a b :: nat
  assumes "a < 256" and "b < 256"
  shows "Bit_Operations.xor a b < 256"
proof -
  from assms have "take_bit 8 a = a" and "take_bit 8 b = b"
    by (simp_all add: take_bit_nat_eq_self)
  then have "Bit_Operations.xor a b = take_bit 8 (Bit_Operations.xor a b)"
    by (simp add: take_bit_xor)
  also have "\<dots> < 2 ^ 8"
    by (rule take_bit_nat_less_exp)
  finally show ?thesis by simp
qed

lemma of_char_lt_256: "(of_char c :: nat) < 256"
proof -
  have "(of_char c :: nat) mod 256 < 256" by simp
  then show ?thesis by (simp only: of_char_mod_256)
qed

lemma xor_char_twice:
  "char_of (Bit_Operations.xor (Bit_Operations.xor (of_char x :: nat) (of_char y) mod 256)
      (of_char y)) = x"
proof -
  have "Bit_Operations.xor (of_char x :: nat) (of_char y) < 256"
    by (rule xor_nat_lt_256) (rule of_char_lt_256)+
  then have "Bit_Operations.xor (of_char x :: nat) (of_char y) mod 256
      = Bit_Operations.xor (of_char x) (of_char y)"
    by simp
  then show ?thesis
    by (simp add: xor.assoc)
qed

lemma length_xor_bytes: "length (xor_bytes xs ys) = min (length xs) (length ys)"
  by (simp add: xor_bytes_def)

lemma xor_bytes_twice:
  "length xs \<le> length ys \<Longrightarrow> xor_bytes (xor_bytes xs ys) ys = xs"
proof (induction xs arbitrary: ys)
  case Nil
  then show ?case by (simp add: xor_bytes_def)
next
  case (Cons x xs)
  then obtain y ys' where ys: "ys = y # ys'" by (cases ys) auto
  with Cons.prems have "length xs \<le> length ys'" by simp
  from Cons.IH [OF this] show ?case
    by (simp add: ys xor_bytes_def xor_char_twice)
qed

lemma pkcs7_pad_length: "length (pkcs7_pad bs) mod 16 = 0"
proof -
  define q where "q = length bs div 16"
  define r where "r = length bs mod 16"
  have "length bs = 16 * q + r" by (simp add: q_def r_def)
  moreover have "r < 16" by (simp add: r_def)
  ultimately have "length bs + (16 - r) = 16 * (q + 1)"
    by simp
  then have "length (pkcs7_pad bs) = 16 * (q + 1)"
    by (simp add: pkcs7_pad_def r_def)
  then show ?thesis by simp
qed

lemma pkcs7_pad_not_Nil: "pkcs7_pad bs \<noteq> []"
proof -
  have "0 < 16 - length bs mod 16" by simp
  then show ?thesis by (simp add: pkcs7_pad_def)
qed

lemma pkcs7_unpad_pad: "pkcs7_unpad (pkcs7_pad bs) = bs"
proof -
  let ?n = "16 - length bs mod 16"
  have n: "0 < ?n" "?n \<le> 16" by simp_all
  then have l: "last (pkcs7_pad bs) = char_of ?n"
    by (simp add: pkcs7_pad_def)
  from n have "(of_char (char_of ?n :: char) :: nat) = ?n"
    by simp
  with l have "length (pkcs7_pad bs) - of_char (last (pkcs7_pad bs)) = length bs"
    by (simp add: pkcs7_pad_def)
  with pkcs7_pad_not_Nil [of bs] show ?thesis
    by (simp add: pkcs7_unpad_def) (simp add: pkcs7_pad_def)
qed

lemma cbc_decrypt_block:
  assumes "length c = 16"
  shows "cbc_decrypt dec prev (c @ rest) = xor_bytes (dec c) prev @ cbc_decrypt dec c rest"
proof -
  from assms have "c \<noteq> []" by auto
  then have ne: "c @ rest \<noteq> []" by simp
  from assms have t: "take 16 (c @ rest) = c" and d: "drop 16 (c @ rest) = rest"
    by simp_all
  show ?thesis
    by (subst cbc_decrypt.simps) (simp only: ne t d if_False)
qed

lemma cbc_round_trip:
  assumes block: "\<And>b. length b = 16 \<Longrightarrow> length (enc b) = 16 \<and> dec (enc b) = b"
  shows "length prev = 16 \<Longrightarrow> length input mod 16 = 0 \<Longrightarrow>
           cbc_decrypt dec prev (cbc_encrypt enc prev input) = input"
proof (induction input arbitrary: prev rule: length_induct)
  case (1 input)
  show ?case
  proof (cases "input = []")
    case True
    then show ?thesis by (simp add: cbc_encrypt.simps cbc_decrypt.simps)
  next
    case False
    with "1.prems"(2) have len: "16 \<le> length input"
      by (cases "length input < 16") auto
    let ?b = "xor_bytes (take 16 input) prev"
    let ?out = "enc ?b"
    from len "1.prems"(1) have lb: "length ?b = 16"
      by (simp add: length_xor_bytes)
    note bl = block [OF lb]
    from bl have lo: "length ?out = 16"
      by (rule conjunct1)
    from bl have d: "dec ?out = ?b"
      by (rule conjunct2)
    from len "1.prems"(2) have m: "length (drop 16 input) mod 16 = 0"
      by (simp add: mod_eq_0_iff_dvd dvd_diff_nat)
    from len have sh: "length (drop 16 input) < length input"
      by simp
    have e: "cbc_encrypt enc prev input = ?out @ cbc_encrypt enc ?out (drop 16 input)"
      using False by (subst cbc_encrypt.simps) (simp add: Let_def)
    have ih: "cbc_decrypt dec ?out (cbc_encrypt enc ?out (drop 16 input)) = drop 16 input"
      by (rule "1.IH" [rule_format, OF sh lo m])
    have x: "xor_bytes ?b prev = take 16 input"
      using len "1.prems"(1) by (intro xor_bytes_twice) simp
    have "cbc_decrypt dec prev (?out @ cbc_encrypt enc ?out (drop 16 input))
        = xor_bytes (dec ?out) prev
            @ cbc_decrypt dec ?out (cbc_encrypt enc ?out (drop 16 input))"
      by (rule cbc_decrypt_block [OF lo])
    also have "\<dots> = take 16 input @ drop 16 input"
      by (simp only: d x ih)
    finally show ?thesis
      by (simp add: e)
  qed
qed

text \<open>
  C8. Decrypting what \<open>aes_cbc_encrypt\<close> produces, with the same key and IV, gives
  the plaintext back, for every plaintext (every product-parameter string is one),
  every key of 16, 24 or 32 bytes and every IV of one block.
\<close>

theorem aes_cbc_round_trip:
  assumes "length key \<in> {16, 24, 32}" and "length iv = 16"
  shows "spec_aes_cbc_decrypt key iv (aes_cbc_encrypt key iv plaintext) = plaintext"
proof -
  have block: "\<And>b. length b = 16 \<Longrightarrow>
      length (aes_encrypt_block key b) = 16
      \<and> aes_decrypt_block key (aes_encrypt_block key b) = b"
    using aes_block_round_trip [OF assms(1)] by blast
  have "cbc_decrypt (aes_decrypt_block key) iv
          (cbc_encrypt (aes_encrypt_block key) iv (pkcs7_pad plaintext)) = pkcs7_pad plaintext"
    using block assms(2) pkcs7_pad_length by (rule cbc_round_trip)
  then show ?thesis
    by (simp add: spec_aes_cbc_decrypt_def aes_cbc_encrypt_def pkcs7_unpad_pad)
qed

theorem aes_cbc_round_trip_witness:
  "length (PAYPRO_PARAM_KEY example_config) = 16
   \<and> length (PAYPRO_PARAM_IV example_config) = 16
   \<and> spec_aes_cbc_decrypt (PAYPRO_PARAM_KEY example_config) (PAYPRO_PARAM_IV example_config)
        (aes_cbc_encrypt (PAYPRO_PARAM_KEY example_config) (PAYPRO_PARAM_IV example_config)
           (params_toString [(''price[EUR][Amount]'', ''14'')]))
       = params_toString [(''price[EUR][Amount]'', ''14'')]"
proof -
  have k: "length (PAYPRO_PARAM_KEY example_config) = 16"
    and i: "length (PAYPRO_PARAM_IV example_config) = 16"
    by (simp_all add: example_config_def)
  from k have k': "length (PAYPRO_PARAM_KEY example_config) \<in> {16, 24, 32}"
    by simp
  from aes_cbc_round_trip [OF k' i] k i show ?thesis
    by blast
qed

end
